theory Spec2Isabelle
  imports Main "HOL-Library.Word" "HOL-Library.Sublist" "HOL-Library.AList"
begin

unbundle bit_operations_syntax

section \<open>Buffers and text views\<close>

text \<open>
  A Node \<open>Buffer\<close> is a finite sequence of bytes.  \<open>buffer.length\<close> is \<^const>\<open>length\<close>,
  \<open>buffer.subarray(0, n)\<close> is \<^const>\<open>take\<close>, \<open>a.equals(b)\<close> is equality and
  \<open>Buffer.concat\<close> is \<^const>\<open>concat\<close>.
\<close>

type_synonym byte = "8 word"
type_synonym buffer = "byte list"

text \<open>
  \<open>buffer.toString('latin1')\<close>: every byte becomes the character with the same code.
  A HOL \<^typ>\<open>char\<close> has eight bits, so the view is one character per byte.
\<close>

definition toString_latin1 :: "buffer \<Rightarrow> string" where
  "toString_latin1 buf = map (\<lambda>b. char_of (unat b)) buf"

text \<open>\<open>Buffer.from(str)\<close> on a string of ASCII characters: one byte per character.\<close>

definition Buffer_from :: "string \<Rightarrow> buffer" where
  "Buffer_from s = map (\<lambda>c. of_nat (of_char c)) s"

text \<open>\<open>String.prototype.startsWith\<close> and \<open>String.prototype.includes\<close>.\<close>

definition startsWith :: "string \<Rightarrow> string \<Rightarrow> bool" where
  "startsWith content p = prefix p content"

definition includes_str :: "string \<Rightarrow> string \<Rightarrow> bool" where
  "includes_str content tok = sublist tok content"

section \<open>Signature validation\<close>

definition PDF_SIGNATURE :: buffer where
  "PDF_SIGNATURE = [0x25, 0x50, 0x44, 0x46, 0x2d]"

definition PNG_SIGNATURE :: buffer where
  "PNG_SIGNATURE = [0x89, 0x50, 0x4e, 0x47, 0x0d, 0x0a, 0x1a, 0x0a]"

definition isPDFFile :: "buffer \<Rightarrow> bool" where
  "isPDFFile buf =
     (if length buf < length PDF_SIGNATURE then False
      else take (length PDF_SIGNATURE) buf = PDF_SIGNATURE)"

definition isPNGFile :: "buffer \<Rightarrow> bool" where
  "isPNGFile buf =
     (if length buf < length PNG_SIGNATURE then False
      else take (length PNG_SIGNATURE) buf = PNG_SIGNATURE)"

section \<open>PDF structural validation\<close>

text \<open>
  The regular expression \<open>/\d+\s+\d+\s+obj/\<close> tested against the latin1 view.
  \<open>\d\<close> is an ASCII digit.  \<open>\s\<close> is JavaScript white space; of its code
  points only 9 to 13, 32 and 160 are below 256, and the latin1 view has no others.
\<close>

definition isDigit :: "char \<Rightarrow> bool" where
  "isDigit c = (48 \<le> (of_char c :: nat) \<and> (of_char c :: nat) \<le> 57)"

definition isSpace :: "char \<Rightarrow> bool" where
  "isSpace c = ((of_char c :: nat) \<in> {9, 10, 11, 12, 13, 32, 160})"

text \<open>
  A match anchored at the head of the text.  The three classes (digit, white space, the
  letter \<open>o\<close>) are disjoint, so the longest run is the only run a backtracking matcher
  can succeed with, and \<^const>\<open>takeWhile\<close> decides each \<open>+\<close>.
\<close>

definition objHeaderAt :: "string \<Rightarrow> bool" where
  "objHeaderAt s =
     (let d1 = takeWhile isDigit s; r1 = dropWhile isDigit s;
          w1 = takeWhile isSpace r1; r2 = dropWhile isSpace r1;
          d2 = takeWhile isDigit r2; r3 = dropWhile isDigit r2;
          w2 = takeWhile isSpace r3; r4 = dropWhile isSpace r3
      in d1 \<noteq> [] \<and> w1 \<noteq> [] \<and> d2 \<noteq> [] \<and> w2 \<noteq> [] \<and> prefix ''obj'' r4)"

text \<open>\<open>RegExp.prototype.test\<close>: a match may start at any position.\<close>

fun hasObjects :: "string \<Rightarrow> bool" where
  "hasObjects [] = False"
| "hasObjects (c # cs) = (objHeaderAt (c # cs) \<or> hasObjects cs)"

text \<open>
  The corruption kinds of \<open>PDFCorruptionDetails\<close>, in the order of the type declaration:
  \<open>cabecalho_invalido\<close>, \<open>xref_corrompida\<close>, \<open>trailer_ausente\<close>, \<open>objeto_corrompido\<close>,
  \<open>stream_invalida\<close>, \<open>estrutura_invalida\<close>, \<open>outro\<close>.  The messages are fixed texts, one
  per check; they are named after the check that emits them.
\<close>

datatype corruption_type =
    Cabecalho_invalido | Xref_corrompida | Trailer_ausente | Objeto_corrompido
  | Stream_invalida | Estrutura_invalida | Outro

datatype corruption_message =
    Msg_header | Msg_xref | Msg_trailer | Msg_startxref | Msg_eof | Msg_objects | Msg_other

record PDFCorruptionDetails =
  ctype :: corruption_type
  cmessage :: corruption_message

record structure_validation =
  valid :: bool
  corruption :: "PDFCorruptionDetails option"

definition corrupt :: "corruption_type \<Rightarrow> corruption_message \<Rightarrow> structure_validation" where
  "corrupt t m = \<lparr>valid = False, corruption = Some \<lparr>ctype = t, cmessage = m\<rparr>\<rparr>"

text \<open>
  \<open>validatePDFStructure\<close>.  The surrounding \<open>try\<close> only guards \<open>toString\<close> and the
  string probes, none of which throws on a buffer, so the \<open>outro\<close> branch is never taken.
\<close>

definition validatePDFStructure :: "buffer \<Rightarrow> structure_validation" where
  "validatePDFStructure buf =
     (let content = toString_latin1 buf in
      if \<not> startsWith content ''%PDF-'' then corrupt Cabecalho_invalido Msg_header
      else if \<not> includes_str content ''xref'' then corrupt Xref_corrompida Msg_xref
      else if \<not> includes_str content ''trailer'' then corrupt Trailer_ausente Msg_trailer
      else if \<not> includes_str content ''startxref'' then corrupt Estrutura_invalida Msg_startxref
      else if \<not> includes_str content ''%%EOF'' then corrupt Estrutura_invalida Msg_eof
      else if \<not> hasObjects content then corrupt Objeto_corrompido Msg_objects
      else \<lparr>valid = True, corruption = None\<rparr>)"

section \<open>Errors\<close>

text \<open>
  The error codes that the services pass to \<open>new ServiceError(code, message, status, details)\<close>.
  The messages are fixed sentences for the user that no operation reads back; the model keeps
  the code, the HTTP status and the details.
\<close>

datatype error_code =
    VALIDATION_ERROR | INVALID_FILE_TYPE | FILE_TOO_LARGE | CORRUPTED_FILE | MALWARE_DETECTED
  | UPLOAD_FAILED | UPLOAD_IN_PROGRESS | NOT_FOUND | CONVERSION_FAILED | INTEGRITY_ERROR
  | MEMORY_ERROR | METADATA_EXTRACTION_FAILED

text \<open>
  A thrown value that is not a \<open>ServiceError\<close>: whether it is a \<open>RangeError\<close>, Node's
  \<open>code\<close> property when it has one, and its message.
\<close>

record js_error =
  rangeError :: bool
  node_code :: "string option"
  message :: string

datatype details =
    NoDetails
  | Cause js_error
  | CorruptionTypeOf "corruption_type option"
  | IntegritySizes nat nat nat
  | ZodIssues

record service_error =
  code :: error_code
  statusCode :: nat
  details :: details

definition ServiceError :: "error_code \<Rightarrow> nat \<Rightarrow> details \<Rightarrow> service_error" where
  "ServiceError c s d = \<lparr>code = c, statusCode = s, details = d\<rparr>"

datatype thrown = Service service_error | Native js_error

text \<open>The outcome of \<open>schema.safeParse\<close> on a request's parameters or body.\<close>

datatype parsed = ParseFailure | ParseSuccess string

section \<open>Fixed-offset reads\<close>

text \<open>
  Node's \<open>readUInt8\<close> and \<open>readUInt32BE\<close> throw a \<open>RangeError\<close> when the offset does not
  leave room for the field: \<open>ERR_BUFFER_OUT_OF_BOUNDS\<close> when the buffer is shorter than the
  field itself, \<open>ERR_OUT_OF_RANGE\<close> otherwise.
\<close>

definition boundsError :: "buffer \<Rightarrow> nat \<Rightarrow> js_error" where
  "boundsError buf width =
     \<lparr>rangeError = True,
      node_code = Some (if length buf < width then ''ERR_BUFFER_OUT_OF_BOUNDS''
                        else ''ERR_OUT_OF_RANGE''),
      message = ''out of range''\<rparr>"

definition readUInt8 :: "buffer \<Rightarrow> nat \<Rightarrow> js_error + nat" where
  "readUInt8 buf off =
     (if off < length buf then Inr (unat (buf ! off)) else Inl (boundsError buf 1))"

definition readUInt32BE :: "buffer \<Rightarrow> nat \<Rightarrow> js_error + nat" where
  "readUInt32BE buf off =
     (if off + 3 < length buf
      then Inr (unat (buf ! off) * 2 ^ 24 + unat (buf ! (off + 1)) * 2 ^ 16
                + unat (buf ! (off + 2)) * 2 ^ 8 + unat (buf ! (off + 3)))
      else Inl (boundsError buf 4))"

section \<open>Numbers as text, sizes, base64\<close>

text \<open>The decimal text of a non-negative integer, as a template literal prints it.\<close>

function show_nat :: "nat \<Rightarrow> string" where
  "show_nat n =
     (if n < 10 then [char_of (48 + n)]
      else show_nat (n div 10) @ [char_of (48 + n mod 10)])"
  by pat_completeness auto
termination
  by (relation "measure (\<lambda>n. n)") auto

declare show_nat.simps [simp del]

text \<open>
  \<open>x.toFixed(2)\<close> for \<open>x = num / den\<close>: the integer \<open>h\<close> nearest to \<open>100 * x\<close>, the larger
  one on a tie, printed with two decimals.  Both divisors of \<open>formatFileSize\<close> are powers
  of two, so the quotient is exact in floating point and \<open>h\<close> is the one computed here.
\<close>

definition toFixed2 :: "nat \<Rightarrow> nat \<Rightarrow> string" where
  "toFixed2 num den =
     (let h = (200 * num + den) div (2 * den)
      in show_nat (h div 100) @ ''.'' @ show_nat (h mod 100 div 10) @ show_nat (h mod 10))"

definition formatFileSize :: "nat \<Rightarrow> string" where
  "formatFileSize bytes =
     (if bytes < 1024 * 1024 then toFixed2 bytes 1024 @ '' KB''
      else toFixed2 bytes (1024 * 1024) @ '' MB'')"

text \<open>\<open>buffer.toString('base64')\<close>: the standard alphabet, padded with \<open>=\<close>.\<close>

definition base64_alphabet :: string where
  "base64_alphabet = ''ABCDEFGHIJKLMNOPQRSTUVWXYZabcdefghijklmnopqrstuvwxyz0123456789+/''"

definition b64 :: "nat \<Rightarrow> char" where
  "b64 i = base64_alphabet ! i"

fun toString_base64 :: "buffer \<Rightarrow> string" where
  "toString_base64 [] = []"
| "toString_base64 [a] =
     [b64 (unat a div 4), b64 (unat a mod 4 * 16), CHR ''='', CHR ''='']"
| "toString_base64 [a, b] =
     [b64 (unat a div 4), b64 (unat a mod 4 * 16 + unat b div 16),
      b64 (unat b mod 16 * 4), CHR ''='']"
| "toString_base64 (a # b # c # rest) =
     [b64 (unat a div 4), b64 (unat a mod 4 * 16 + unat b div 16),
      b64 (unat b mod 16 * 4 + unat c div 64), b64 (unat c mod 64)]
     @ toString_base64 rest"

section \<open>Ingestion of the request stream\<close>

text \<open>
  What the request stream emits: \<open>data\<close> with a chunk, \<open>end\<close>, or \<open>error\<close> with its
  cause.  \<open>processMultipartUpload\<close> registers one handler per event on a fresh promise;
  \<open>chunks\<close> and \<open>totalSize\<close> are the handler's captured variables, \<open>settled\<close> is the promise:
  \<open>None\<close> while pending, and the first \<open>resolve\<close> or \<open>reject\<close> is the only one that counts.
\<close>

datatype stream_event = Data buffer | End | StreamError js_error

record ingest =
  chunks :: "buffer list"
  totalSize :: nat
  settled :: "(service_error + buffer) option"

definition settle :: "service_error + buffer \<Rightarrow> ingest \<Rightarrow> ingest" where
  "settle r st = (case settled st of None \<Rightarrow> st\<lparr>settled := Some r\<rparr> | Some _ \<Rightarrow> st)"

definition on_data :: "nat \<Rightarrow> buffer \<Rightarrow> ingest \<Rightarrow> ingest" where
  "on_data limit chunk st =
     (let st1 = st\<lparr>totalSize := totalSize st + length chunk\<rparr> in
      if totalSize st1 > limit
      then settle (Inl (ServiceError FILE_TOO_LARGE 413 NoDetails)) st1
      else st1\<lparr>chunks := chunks st1 @ [chunk]\<rparr>)"

definition on_end :: "ingest \<Rightarrow> ingest" where
  "on_end st =
     (if length (chunks st) = 0
      then settle (Inl (ServiceError VALIDATION_ERROR 400 NoDetails)) st
      else settle (Inr (concat (chunks st))) st)"

definition on_error :: "js_error \<Rightarrow> ingest \<Rightarrow> ingest" where
  "on_error err st = settle (Inl (ServiceError UPLOAD_FAILED 500 (Cause err))) st"

fun handle :: "nat \<Rightarrow> ingest \<Rightarrow> stream_event \<Rightarrow> ingest" where
  "handle limit st (Data chunk) = on_data limit chunk st"
| "handle limit st End = on_end st"
| "handle limit st (StreamError err) = on_error err st"

definition ingest0 :: ingest where
  "ingest0 = \<lparr>chunks = [], totalSize = 0, settled = None\<rparr>"

text \<open>
  The promise after the stream has emitted \<open>evs\<close>.  The two services each have their own
  copy of \<open>processMultipartUpload\<close>; the copies differ in the size limit (and the message).
\<close>

definition processMultipartUpload :: "nat \<Rightarrow> stream_event list \<Rightarrow> (service_error + buffer) option" where
  "processMultipartUpload limit evs = settled (foldl (handle limit) ingest0 evs)"

section \<open>JavaScript maps and objects\<close>

text \<open>
  A \<open>Map<string, V>\<close> keeps its entries in insertion order, one per key.  \<open>set\<close> replaces
  the value of a key in place or appends a new entry, which is \<^const>\<open>AList.update\<close>;
  \<open>delete\<close> reports whether the key was there.
\<close>

type_synonym 'v js_map = "(string \<times> 'v) list"

definition Map_size :: "'v js_map \<Rightarrow> nat" where
  "Map_size m = length m"

definition Map_get :: "'v js_map \<Rightarrow> string \<Rightarrow> 'v option" where
  "Map_get m k = map_of m k"

definition Map_has :: "'v js_map \<Rightarrow> string \<Rightarrow> bool" where
  "Map_has m k = (map_of m k \<noteq> None)"

definition Map_set :: "string \<Rightarrow> 'v \<Rightarrow> 'v js_map \<Rightarrow> 'v js_map" where
  "Map_set k v m = AList.update k v m"

definition Map_delete :: "string \<Rightarrow> 'v js_map \<Rightarrow> 'v js_map \<times> bool" where
  "Map_delete k m = (AList.delete k m, Map_has m k)"

text \<open>
  A plain object as the list of its own properties, in creation order.  The rest pattern
  \<open>const { buffer: _, ...response } = entity\<close> copies every property but the named ones.
\<close>

datatype jsval = JString string | JNumber nat | JBoolean bool | JNull | JBuffer buffer

type_synonym js_object = "(string \<times> jsval) list"

definition rest_without :: "string list \<Rightarrow> js_object \<Rightarrow> js_object" where
  "rest_without ks obj = filter (\<lambda>(k, v). k \<notin> set ks) obj"

section \<open>Entities\<close>

text \<open>
  \<open>FileUploadEntity\<close> and \<open>PDFUploadEntity\<close> share seven fields; the record of the shared
  fields is extended once per entity.  The field \<open>id\<close> is written \<open>id'\<close>.
\<close>

record UploadEntity =
  id' :: string
  fileName :: string
  fileSize :: nat
  fileSizeFormatted :: string
  mimeType :: string
  buffer :: buffer
  uploadedAt :: string

record FileUploadEntity = UploadEntity +
  width :: nat
  height :: nat
  dimensions :: string
  previewUrl :: string

datatype scan_result = Limpo | Infectado | Nao_verificado | Erro_scan

datatype upload_status =
  Aguardando | Em_progresso | Concluido | Erro | Cancelado | Interrompido

record PDFUploadEntity = UploadEntity +
  integrityValid :: bool
  corruptionType :: "corruption_type option"
  scanResult :: scan_result
  token :: string
  status :: upload_status

text \<open>The entities as objects, with the properties in the order of the object literals.\<close>

definition FileUploadEntity_object :: "FileUploadEntity \<Rightarrow> js_object" where
  "FileUploadEntity_object e =
     [(''id'', JString (id' e)), (''fileName'', JString (fileName e)),
      (''fileSize'', JNumber (fileSize e)),
      (''fileSizeFormatted'', JString (fileSizeFormatted e)),
      (''width'', JNumber (width e)), (''height'', JNumber (height e)),
      (''dimensions'', JString (dimensions e)), (''previewUrl'', JString (previewUrl e)),
      (''mimeType'', JString (mimeType e)), (''buffer'', JBuffer (buffer e)),
      (''uploadedAt'', JString (uploadedAt e))]"

fun scan_result_text :: "scan_result \<Rightarrow> string" where
  "scan_result_text Limpo = ''limpo''"
| "scan_result_text Infectado = ''infectado''"
| "scan_result_text Nao_verificado = ''n'' @ [CHR 0xE3] @ ''o_verificado''"
| "scan_result_text Erro_scan = ''erro_scan''"

fun corruption_type_text :: "corruption_type \<Rightarrow> string" where
  "corruption_type_text Cabecalho_invalido =
     ''cabe'' @ [CHR 0xE7] @ ''alho_inv'' @ [CHR 0xE1] @ ''lido''"
| "corruption_type_text Xref_corrompida = ''xref_corrompida''"
| "corruption_type_text Trailer_ausente = ''trailer_ausente''"
| "corruption_type_text Objeto_corrompido = ''objeto_corrompido''"
| "corruption_type_text Stream_invalida = ''stream_inv'' @ [CHR 0xE1] @ ''lida''"
| "corruption_type_text Estrutura_invalida = ''estrutura_inv'' @ [CHR 0xE1] @ ''lida''"
| "corruption_type_text Outro = ''outro''"

fun upload_status_text :: "upload_status \<Rightarrow> string" where
  "upload_status_text Aguardando = ''aguardando''"
| "upload_status_text Em_progresso = ''em_progresso''"
| "upload_status_text Concluido = ''concluido''"
| "upload_status_text Erro = ''erro''"
| "upload_status_text Cancelado = ''cancelado''"
| "upload_status_text Interrompido = ''interrompido''"

definition PDFUploadEntity_object :: "PDFUploadEntity \<Rightarrow> js_object" where
  "PDFUploadEntity_object e =
     [(''id'', JString (id' e)), (''fileName'', JString (fileName e)),
      (''fileSize'', JNumber (fileSize e)),
      (''fileSizeFormatted'', JString (fileSizeFormatted e)),
      (''mimeType'', JString (mimeType e)), (''buffer'', JBuffer (buffer e)),
      (''uploadedAt'', JString (uploadedAt e)),
      (''integrityValid'', JBoolean (integrityValid e)),
      (''corruptionType'',
         (case corruptionType e of None \<Rightarrow> JNull
          | Some t \<Rightarrow> JString (corruption_type_text t))),
      (''scanResult'', JString (scan_result_text (scanResult e))),
      (''token'', JString (token e)),
      (''status'', JString (upload_status_text (status e)))]"

section \<open>The stores\<close>

definition FILE_MAX_FILE_SIZE :: nat where
  "FILE_MAX_FILE_SIZE = 10 * 1024 * 1024"

definition PDF_MAX_FILE_SIZE :: nat where
  "PDF_MAX_FILE_SIZE = 50 * 1024 * 1024"

definition MAX_RECORDS :: nat where
  "MAX_RECORDS = 100"

definition limit_reached :: "string \<Rightarrow> js_error" where
  "limit_reached msg = \<lparr>rangeError = False, node_code = None, message = msg\<rparr>"

subsection \<open>\<open>FileUploadStore\<close>\<close>

record FileUploadStore =
  file_records :: "FileUploadEntity js_map"

definition FileUploadStore_getAll :: "FileUploadStore \<Rightarrow> FileUploadEntity list" where
  "FileUploadStore_getAll s = map snd (file_records s)"

definition FileUploadStore_getById :: "FileUploadStore \<Rightarrow> string \<Rightarrow> FileUploadEntity option" where
  "FileUploadStore_getById s i = Map_get (file_records s) i"

definition FileUploadStore_add :: "FileUploadStore \<Rightarrow> FileUploadEntity \<Rightarrow> js_error + FileUploadStore" where
  "FileUploadStore_add s r =
     (if Map_size (file_records s) \<ge> MAX_RECORDS
      then Inl (limit_reached ''Maximum file upload limit reached'')
      else Inr (s\<lparr>file_records := Map_set (id' r) r (file_records s)\<rparr>))"

definition FileUploadStore_delete :: "FileUploadStore \<Rightarrow> string \<Rightarrow> FileUploadStore \<times> bool" where
  "FileUploadStore_delete s i =
     (case Map_delete i (file_records s) of (m, b) \<Rightarrow> (s\<lparr>file_records := m\<rparr>, b))"

definition FileUploadStore_exists :: "FileUploadStore \<Rightarrow> string \<Rightarrow> bool" where
  "FileUploadStore_exists s i = Map_has (file_records s) i"

definition FileUploadStore_count :: "FileUploadStore \<Rightarrow> nat" where
  "FileUploadStore_count s = Map_size (file_records s)"

definition FileUploadStore_clear :: "FileUploadStore \<Rightarrow> FileUploadStore" where
  "FileUploadStore_clear s = s\<lparr>file_records := []\<rparr>"

definition fileUploadStore0 :: FileUploadStore where
  "fileUploadStore0 = \<lparr>file_records = []\<rparr>"

subsection \<open>\<open>PDFUploadStore\<close>\<close>

record PDFUploadStore =
  records :: "PDFUploadEntity js_map"
  isolatedRecords :: "PDFUploadEntity js_map"
  uploadInProgress :: "string option"

definition hasUploadInProgress :: "PDFUploadStore \<Rightarrow> bool" where
  "hasUploadInProgress s = (uploadInProgress s \<noteq> None)"

definition setUploadInProgress :: "string \<Rightarrow> PDFUploadStore \<Rightarrow> PDFUploadStore" where
  "setUploadInProgress uploadId s = s\<lparr>uploadInProgress := Some uploadId\<rparr>"

definition clearUploadInProgress :: "PDFUploadStore \<Rightarrow> PDFUploadStore" where
  "clearUploadInProgress s = s\<lparr>uploadInProgress := None\<rparr>"

definition PDFUploadStore_getAll :: "PDFUploadStore \<Rightarrow> PDFUploadEntity list" where
  "PDFUploadStore_getAll s = map snd (records s)"

definition PDFUploadStore_getById :: "PDFUploadStore \<Rightarrow> string \<Rightarrow> PDFUploadEntity option" where
  "PDFUploadStore_getById s i =
     (case Map_get (records s) i of Some r \<Rightarrow> Some r
      | None \<Rightarrow> Map_get (isolatedRecords s) i)"

definition PDFUploadStore_add :: "PDFUploadStore \<Rightarrow> PDFUploadEntity \<Rightarrow> js_error + PDFUploadStore" where
  "PDFUploadStore_add s r =
     (if Map_size (records s) \<ge> MAX_RECORDS
      then Inl (limit_reached ''Maximum file upload limit reached'')
      else Inr (s\<lparr>records := Map_set (id' r) r (records s)\<rparr>))"

definition addToIsolated :: "PDFUploadStore \<Rightarrow> PDFUploadEntity \<Rightarrow> js_error + PDFUploadStore" where
  "addToIsolated s r =
     (if Map_size (isolatedRecords s) \<ge> MAX_RECORDS
      then Inl (limit_reached ''Maximum isolated file limit reached'')
      else Inr (s\<lparr>isolatedRecords := Map_set (id' r) r (isolatedRecords s)\<rparr>))"

text \<open>
  \<open>this.records.delete(id) || this.isolatedRecords.delete(id)\<close>: the second map is only
  touched when the first did not have the key.
\<close>

definition PDFUploadStore_delete :: "PDFUploadStore \<Rightarrow> string \<Rightarrow> PDFUploadStore \<times> bool" where
  "PDFUploadStore_delete s i =
     (case Map_delete i (records s) of
        (m, True) \<Rightarrow> (s\<lparr>records := m\<rparr>, True)
      | (m, False) \<Rightarrow>
          (case Map_delete i (isolatedRecords s) of
             (m', b) \<Rightarrow> (s\<lparr>records := m, isolatedRecords := m'\<rparr>, b)))"

definition PDFUploadStore_exists :: "PDFUploadStore \<Rightarrow> string \<Rightarrow> bool" where
  "PDFUploadStore_exists s i = (Map_has (records s) i \<or> Map_has (isolatedRecords s) i)"

definition PDFUploadStore_count :: "PDFUploadStore \<Rightarrow> nat" where
  "PDFUploadStore_count s = Map_size (records s) + Map_size (isolatedRecords s)"

definition PDFUploadStore_clear :: "PDFUploadStore \<Rightarrow> PDFUploadStore" where
  "PDFUploadStore_clear s = s\<lparr>records := [], isolatedRecords := [], uploadInProgress := None\<rparr>"

definition pdfUploadStore0 :: PDFUploadStore where
  "pdfUploadStore0 = \<lparr>records = [], isolatedRecords = [], uploadInProgress = None\<rparr>"

section \<open>Requests and what the services read from their environment\<close>

text \<open>
  Of a request the upload services read the byte stream and the \<open>x-file-name\<close> header;
  the declared content type is carried so that statements can vary it.  The environment
  gives what \<open>uuidv4()\<close>, \<open>new Date().toISOString()\<close> and \<open>Date.now()\<close> return, and which of
  the two timers of the scan settles first.
\<close>

record request =
  events :: "stream_event list"
  x_file_name :: "string option"
  content_type :: "string option"

datatype scan_env = Scan_settles | Timeout_settles | Scan_throws

record env =
  uuid :: string
  now_iso :: string
  now_ms :: nat
  scan :: scan_env

text \<open>\<open>(req.headers['x-file-name'] as string) || fallback\<close>\<close>

definition header_fileName :: "request \<Rightarrow> string \<Rightarrow> string" where
  "header_fileName req fallback =
     (case x_file_name req of None \<Rightarrow> fallback
      | Some n \<Rightarrow> if n = [] then fallback else n)"

text \<open>The outer \<open>catch\<close> of both upload services.\<close>

definition upload_catch :: "thrown \<Rightarrow> service_error" where
  "upload_catch t =
     (case t of Service e \<Rightarrow> e
      | Native err \<Rightarrow> ServiceError UPLOAD_FAILED 500 (Cause err))"

section \<open>The PNG upload service\<close>

definition extractPNGDimensions :: "buffer \<Rightarrow> js_error + nat \<times> nat" where
  "extractPNGDimensions buf =
     (case readUInt32BE buf 16 of Inl err \<Rightarrow> Inl err
      | Inr w \<Rightarrow>
         (case readUInt32BE buf 20 of Inl err \<Rightarrow> Inl err
          | Inr h \<Rightarrow> Inr (w, h)))"

definition generatePreviewUrl :: "buffer \<Rightarrow> string \<Rightarrow> string" where
  "generatePreviewUrl buf mime = ''data:'' @ mime @ '';base64,'' @ toString_base64 buf"

text \<open>The entity literal of \<open>fileUploadProcess\<close>.\<close>

definition newFileUploadEntity ::
    "request \<Rightarrow> env \<Rightarrow> buffer \<Rightarrow> nat \<Rightarrow> nat \<Rightarrow> FileUploadEntity" where
  "newFileUploadEntity req ev buf w h =
     \<lparr>id' = uuid ev,
      fileName = header_fileName req ''upload.png'',
      fileSize = length buf,
      fileSizeFormatted = formatFileSize (length buf),
      mimeType = ''image/png'',
      buffer = buf,
      uploadedAt = now_iso ev,
      width = w,
      height = h,
      dimensions = show_nat w @ '' x '' @ show_nat h,
      previewUrl = generatePreviewUrl buf ''image/png''\<rparr>"

text \<open>The body of the \<open>try\<close> of \<open>fileUploadProcess\<close>, from the settled promise on.\<close>

definition fileUploadTry ::
    "FileUploadStore \<Rightarrow> service_error + buffer \<Rightarrow> request \<Rightarrow> env
      \<Rightarrow> FileUploadStore \<times> (thrown + js_object)" where
  "fileUploadTry st r req ev =
     (case r of
        Inl e \<Rightarrow> (st, Inl (Service e))
      | Inr buf \<Rightarrow>
         if length buf > FILE_MAX_FILE_SIZE
         then (st, Inl (Service (ServiceError FILE_TOO_LARGE 413 NoDetails)))
         else if \<not> isPNGFile buf
         then (st, Inl (Service (ServiceError INVALID_FILE_TYPE 400 NoDetails)))
         else
          (case extractPNGDimensions buf of
             Inl err \<Rightarrow> (st, Inl (Service (ServiceError CORRUPTED_FILE 400 NoDetails)))
           | Inr (w, h) \<Rightarrow>
              (let entity = newFileUploadEntity req ev buf w h
               in case FileUploadStore_add st entity of
                    Inl err \<Rightarrow> (st, Inl (Native err))
                  | Inr st' \<Rightarrow>
                      (st', Inr (rest_without [''buffer''] (FileUploadEntity_object entity))))))"

text \<open>
  \<open>fileUploadProcess\<close>.  The result is \<open>None\<close> when the stream never settles the promise:
  the \<open>await\<close> does not return.
\<close>

definition fileUploadProcess ::
    "FileUploadStore \<Rightarrow> request \<Rightarrow> env
      \<Rightarrow> FileUploadStore \<times> (service_error + js_object) option" where
  "fileUploadProcess st req ev =
     (case processMultipartUpload FILE_MAX_FILE_SIZE (events req) of
        None \<Rightarrow> (st, None)
      | Some r \<Rightarrow>
         (case fileUploadTry st r req ev of
            (st', Inl t) \<Rightarrow> (st', Some (Inl (upload_catch t)))
          | (st', Inr resp) \<Rightarrow> (st', Some (Inr resp))))"

definition fileUploadGet :: "FileUploadStore \<Rightarrow> parsed \<Rightarrow> service_error + js_object" where
  "fileUploadGet st params =
     (case params of
        ParseFailure \<Rightarrow> Inl (ServiceError VALIDATION_ERROR 400 ZodIssues)
      | ParseSuccess i \<Rightarrow>
         (case FileUploadStore_getById st i of
            None \<Rightarrow> Inl (ServiceError NOT_FOUND 404 NoDetails)
          | Some entity \<Rightarrow> Inr (rest_without [''buffer''] (FileUploadEntity_object entity))))"

definition fileUploadCancel ::
    "FileUploadStore \<Rightarrow> parsed \<Rightarrow> FileUploadStore \<times> (service_error + string)" where
  "fileUploadCancel st params =
     (case params of
        ParseFailure \<Rightarrow> (st, Inl (ServiceError VALIDATION_ERROR 400 ZodIssues))
      | ParseSuccess i \<Rightarrow>
         if \<not> FileUploadStore_exists st i
         then (st, Inl (ServiceError NOT_FOUND 404 NoDetails))
         else (fst (FileUploadStore_delete st i), Inr ''File deleted successfully''))"

section \<open>The PNG conversion service\<close>

definition metadata_failed :: "js_error \<Rightarrow> service_error" where
  "metadata_failed err = ServiceError METADATA_EXTRACTION_FAILED 500 (Cause err)"

text \<open>
  \<open>extractPNGMetadata\<close>: the whole body is inside \<open>try\<close>, and the \<open>catch\<close> turns whatever a
  read throws into \<open>METADATA_EXTRACTION_FAILED\<close>.  The colour types 4 and 6 are
  \<open>GRAYSCALE_ALPHA\<close> and \<open>RGBA\<close>.
\<close>

definition extractPNGMetadata :: "buffer \<Rightarrow> service_error + js_object" where
  "extractPNGMetadata buf =
     (case readUInt32BE buf 16 of Inl err \<Rightarrow> Inl (metadata_failed err)
      | Inr w \<Rightarrow>
     (case readUInt32BE buf 20 of Inl err \<Rightarrow> Inl (metadata_failed err)
      | Inr h \<Rightarrow>
     (case readUInt8 buf 24 of Inl err \<Rightarrow> Inl (metadata_failed err)
      | Inr bitDepth \<Rightarrow>
     (case readUInt8 buf 25 of Inl err \<Rightarrow> Inl (metadata_failed err)
      | Inr colorType \<Rightarrow>
         (let hasTransparency =
                (if colorType = 4 \<or> colorType = 6 then True
                 else includes_str (toString_latin1 buf) ''tRNS'')
          in Inr [(''width'', JNumber w), (''height'', JNumber h),
                  (''bitDepth'', JNumber bitDepth), (''colorType'', JNumber colorType),
                  (''hasTransparency'', JBoolean hasTransparency)])))))"

text \<open>
  \<open>Math.ceil((fileSize * 4) / 3) + mimePrefix.length\<close>.  The product is an exact integer
  and the quotient is either an integer or at least a third away from one, so the
  floating-point ceiling is the integer ceiling.
\<close>

definition calculateExpectedBase64Size :: "nat \<Rightarrow> string \<Rightarrow> nat" where
  "calculateExpectedBase64Size fsize mimePrefix = (fsize * 4 + 2) div 3 + length mimePrefix"

definition abs_diff :: "nat \<Rightarrow> nat \<Rightarrow> nat" where
  "abs_diff a b = (if a \<le> b then b - a else a - b)"

text \<open>
  \<open>Math.abs(actualSize - expectedSize) <= expectedSize * 0.01\<close>.  The difference is an
  integer \<open>d\<close>; the comparison holds exactly when \<open>100 * d \<le> expectedSize\<close>.  (Where
  \<open>expectedSize\<close> is no multiple of 100 the two sides are at least a hundredth apart, far
  more than the rounding of the product; where it is \<open>100 * d\<close> the product rounds to \<open>d\<close>.)
\<close>

definition validateConversionIntegrity :: "nat \<Rightarrow> nat \<Rightarrow> bool" where
  "validateConversionIntegrity actualSize expectedSize =
     (let difference = abs_diff actualSize expectedSize
      in 100 * difference \<le> expectedSize)"

text \<open>
  \<open>convertToBase64\<close>, over the encoder \<open>enc\<close> that stands for \<open>buffer.toString('base64')\<close>
  and may throw.
\<close>

definition convertToBase64 :: "(buffer \<Rightarrow> js_error + string) \<Rightarrow> buffer \<Rightarrow> string \<Rightarrow> js_error + string" where
  "convertToBase64 enc buf mime =
     (case enc buf of Inl err \<Rightarrow> Inl err
      | Inr base64Data \<Rightarrow> Inr (''data:'' @ mime @ '';base64,'' @ base64Data))"

text \<open>
  \<open>cleanupMemory\<close> on an object reference: every own key is deleted.  Strings are not
  objects and are left alone.
\<close>

definition cleanupMemory :: "js_object \<Rightarrow> js_object" where
  "cleanupMemory ref = foldl (\<lambda>obj key. AList.delete key obj) ref (map fst ref)"

record PNGConversionResponse =
  fileId :: string
  base64String :: string
  base64Size :: nat
  expectedSize :: nat
  integrityValid' :: bool
  metadata :: js_object
  convertedAt :: string

text \<open>The body of the \<open>try\<close> of \<open>pngConversionProcess\<close>.\<close>

definition pngConversionTry ::
    "(buffer \<Rightarrow> js_error + string) \<Rightarrow> FileUploadStore \<Rightarrow> parsed \<Rightarrow> string
      \<Rightarrow> thrown + PNGConversionResponse" where
  "pngConversionTry enc st body now =
     (case body of
        ParseFailure \<Rightarrow> Inl (Service (ServiceError VALIDATION_ERROR 400 ZodIssues))
      | ParseSuccess fid \<Rightarrow>
     (case FileUploadStore_getById st fid of
        None \<Rightarrow> Inl (Service (ServiceError NOT_FOUND 404 NoDetails))
      | Some fileEntity \<Rightarrow>
     (case extractPNGMetadata (buffer fileEntity) of
        Inl e \<Rightarrow> Inl (Service e)
      | Inr md \<Rightarrow>
         (let mimePrefix = ''data:'' @ mimeType fileEntity @ '';base64,'';
              expected = calculateExpectedBase64Size (fileSize fileEntity) mimePrefix
          in case convertToBase64 enc (buffer fileEntity) (mimeType fileEntity) of
               Inl err \<Rightarrow> Inl (Service (ServiceError CONVERSION_FAILED 500 (Cause err)))
             | Inr b64s \<Rightarrow>
                (let actualSize = length b64s;
                     ok = validateConversionIntegrity actualSize expected
                 in if \<not> ok
                    then Inl (Service (ServiceError INTEGRITY_ERROR 500
                           (IntegritySizes expected actualSize (abs_diff actualSize expected))))
                    else Inr \<lparr>fileId = fid, base64String = b64s, base64Size = actualSize,
                              expectedSize = expected, integrityValid' = ok,
                              metadata = md, convertedAt = now\<rparr>)))))"

text \<open>The \<open>catch\<close> of \<open>pngConversionProcess\<close>.\<close>

definition conversion_catch :: "thrown \<Rightarrow> service_error" where
  "conversion_catch t =
     (case t of
        Service e \<Rightarrow> e
      | Native err \<Rightarrow>
          if rangeError err \<or> node_code err = Some ''ERR_BUFFER_OUT_OF_BOUNDS''
          then ServiceError MEMORY_ERROR 500 (Cause err)
          else ServiceError CONVERSION_FAILED 500 (Cause err))"

text \<open>
  \<open>pngConversionProcess\<close>.  The \<open>finally\<close> block runs \<open>cleanupMemory\<close> on the metadata
  object, which is the object the response refers to.
\<close>

definition pngConversionProcess_with ::
    "(buffer \<Rightarrow> js_error + string) \<Rightarrow> FileUploadStore \<Rightarrow> parsed \<Rightarrow> string
      \<Rightarrow> service_error + PNGConversionResponse" where
  "pngConversionProcess_with enc st body now =
     (case pngConversionTry enc st body now of
        Inl t \<Rightarrow> Inl (conversion_catch t)
      | Inr response \<Rightarrow> Inr (response\<lparr>metadata := cleanupMemory (metadata response)\<rparr>))"

definition pngConversionProcess ::
    "FileUploadStore \<Rightarrow> parsed \<Rightarrow> string \<Rightarrow> service_error + PNGConversionResponse" where
  "pngConversionProcess = pngConversionProcess_with (\<lambda>buf. Inr (toString_base64 buf))"

section \<open>The PDF upload service\<close>

text \<open>
  \<open>scanForVirus\<close> races a timer that resolves \<open>limpo\<close> against a timer that resolves
  \<open>erro_scan\<close>, and its \<open>catch\<close> returns \<open>erro_scan\<close>.  The buffer is not inspected.
\<close>

definition scanForVirus :: "buffer \<Rightarrow> scan_env \<Rightarrow> scan_result" where
  "scanForVirus buf sc =
     (case sc of Scan_settles \<Rightarrow> Limpo
      | Timeout_settles \<Rightarrow> Erro_scan
      | Scan_throws \<Rightarrow> Erro_scan)"

text \<open>
  \<open>generateAccessToken\<close>: the base64 of \<open>JSON.stringify({ fileId, exp })\<close>.  The id is a
  version 4 UUID, which has no character that JSON escapes.
\<close>

definition generateAccessToken :: "string \<Rightarrow> nat \<Rightarrow> string" where
  "generateAccessToken fid now =
     toString_base64 (Buffer_from
       (''{'' @ [CHR 0x22] @ ''fileId'' @ [CHR 0x22] @ '':'' @ [CHR 0x22] @ fid @ [CHR 0x22]
        @ '','' @ [CHR 0x22] @ ''exp'' @ [CHR 0x22] @ '':''
        @ show_nat (now + 24 * 60 * 60 * 1000) @ ''}''))"

text \<open>
  The synchronous head of \<open>pdfUploadProcess\<close>, up to the first \<open>await\<close>: the gate is
  tested, and set to the fresh upload id.  The request is not an argument.
\<close>

definition pdfUploadBegin :: "PDFUploadStore \<Rightarrow> string \<Rightarrow> PDFUploadStore \<times> (service_error + string)" where
  "pdfUploadBegin st fresh =
     (if hasUploadInProgress st
      then (st, Inl (ServiceError UPLOAD_IN_PROGRESS 409 NoDetails))
      else (setUploadInProgress fresh st, Inr fresh))"

text \<open>The entity literal of \<open>pdfUploadProcess\<close>.\<close>

definition newPDFUploadEntity ::
    "string \<Rightarrow> request \<Rightarrow> env \<Rightarrow> buffer \<Rightarrow> scan_result \<Rightarrow> PDFUploadEntity" where
  "newPDFUploadEntity uploadId req ev buf scanned =
     \<lparr>id' = uploadId,
      fileName = header_fileName req ''upload.pdf'',
      fileSize = length buf,
      fileSizeFormatted = formatFileSize (length buf),
      mimeType = ''application/pdf'',
      buffer = buf,
      uploadedAt = now_iso ev,
      integrityValid = True,
      corruptionType = None,
      scanResult = scanned,
      token = generateAccessToken uploadId (now_ms ev),
      status = Concluido\<rparr>"

text \<open>The body of the inner \<open>try\<close>, from the settled promise on.\<close>

definition pdfUploadTry ::
    "PDFUploadStore \<Rightarrow> string \<Rightarrow> service_error + buffer \<Rightarrow> request \<Rightarrow> env
      \<Rightarrow> PDFUploadStore \<times> (thrown + js_object)" where
  "pdfUploadTry st uploadId r req ev =
     (case r of
        Inl e \<Rightarrow> (st, Inl (Service e))
      | Inr buf \<Rightarrow>
         if length buf > PDF_MAX_FILE_SIZE
         then (st, Inl (Service (ServiceError FILE_TOO_LARGE 413 NoDetails)))
         else if \<not> isPDFFile buf
         then (st, Inl (Service (ServiceError INVALID_FILE_TYPE 400 NoDetails)))
         else
          (let structureValidation = validatePDFStructure buf in
           if \<not> valid structureValidation
           then (st, Inl (Service (ServiceError CORRUPTED_FILE 400
                   (CorruptionTypeOf (map_option ctype (corruption structureValidation))))))
           else
            (let scanned = scanForVirus buf (scan ev) in
             if scanned = Infectado
             then (st, Inl (Service (ServiceError MALWARE_DETECTED 400 NoDetails)))
             else
              (let entity = newPDFUploadEntity uploadId req ev buf scanned
               in case (if scanned = Erro_scan then addToIsolated st entity
                        else PDFUploadStore_add st entity) of
                    Inl err \<Rightarrow> (st, Inl (Native err))
                  | Inr st' \<Rightarrow>
                      (clearUploadInProgress st',
                       Inr (rest_without [''buffer'', ''status'']
                              (PDFUploadEntity_object entity)))))))"

text \<open>
  The rest of \<open>pdfUploadProcess\<close> once the gate is set: the awaited ingestion, the inner
  \<open>try\<close>, the inner \<open>catch\<close> that clears the gate and rethrows, and the outer \<open>catch\<close>.
  The result is \<open>None\<close> when the stream never settles the promise.
\<close>

definition pdfUploadBody ::
    "PDFUploadStore \<Rightarrow> string \<Rightarrow> request \<Rightarrow> env
      \<Rightarrow> PDFUploadStore \<times> (service_error + js_object) option" where
  "pdfUploadBody st uploadId req ev =
     (case processMultipartUpload PDF_MAX_FILE_SIZE (events req) of
        None \<Rightarrow> (st, None)
      | Some r \<Rightarrow>
         (case pdfUploadTry st uploadId r req ev of
            (st', Inl t) \<Rightarrow> (clearUploadInProgress st', Some (Inl (upload_catch t)))
          | (st', Inr resp) \<Rightarrow> (st', Some (Inr resp))))"

definition pdfUploadProcess ::
    "PDFUploadStore \<Rightarrow> request \<Rightarrow> env
      \<Rightarrow> PDFUploadStore \<times> (service_error + js_object) option" where
  "pdfUploadProcess st req ev =
     (case pdfUploadBegin st (uuid ev) of
        (st', Inl e) \<Rightarrow> (st', Some (Inl e))
      | (st', Inr uploadId) \<Rightarrow> pdfUploadBody st' uploadId req ev)"

definition pdfUploadGet :: "PDFUploadStore \<Rightarrow> parsed \<Rightarrow> service_error + js_object" where
  "pdfUploadGet st params =
     (case params of
        ParseFailure \<Rightarrow> Inl (ServiceError VALIDATION_ERROR 400 ZodIssues)
      | ParseSuccess i \<Rightarrow>
         (case PDFUploadStore_getById st i of
            None \<Rightarrow> Inl (ServiceError NOT_FOUND 404 NoDetails)
          | Some entity \<Rightarrow>
              Inr (rest_without [''buffer'', ''status''] (PDFUploadEntity_object entity))))"

definition pdfUploadCancel ::
    "PDFUploadStore \<Rightarrow> parsed \<Rightarrow> PDFUploadStore \<times> (service_error + string)" where
  "pdfUploadCancel st params =
     (case params of
        ParseFailure \<Rightarrow> (st, Inl (ServiceError VALIDATION_ERROR 400 ZodIssues))
      | ParseSuccess i \<Rightarrow>
         if \<not> PDFUploadStore_exists st i
         then (st, Inl (ServiceError NOT_FOUND 404 NoDetails))
         else (fst (PDFUploadStore_delete st i), Inr ''File deleted successfully''))"

text \<open>
  The states of the document store that the three operations can produce from the empty
  store.  An upload is two steps, its head and its completion, and other requests may be
  served in between; the completion of an upload finds its own id in the gate.
\<close>

inductive reachable :: "PDFUploadStore \<Rightarrow> bool" where
  r_init: "reachable pdfUploadStore0"
| r_begin: "reachable st \<Longrightarrow> reachable (fst (pdfUploadBegin st fresh))"
| r_body: "reachable st \<Longrightarrow> uploadInProgress st = Some uploadId
             \<Longrightarrow> reachable (fst (pdfUploadBody st uploadId req ev))"
| r_get: "reachable st \<Longrightarrow> pdfUploadGet st params = res \<Longrightarrow> reachable st"
| r_cancel: "reachable st \<Longrightarrow> reachable (fst (pdfUploadCancel st params))"

text \<open>The invariant of the ingestion that bounds a resolved buffer.\<close>

definition ingest_ok :: "nat \<Rightarrow> ingest \<Rightarrow> bool" where
  "ingest_ok limit st \<longleftrightarrow>
     length (concat (chunks st)) \<le> totalSize st \<and> length (concat (chunks st)) \<le> limit
     \<and> (\<forall>b. settled st = Some (Inr b) \<longrightarrow> length b \<le> limit)"

section \<open>Concrete inputs\<close>

text \<open>A 67-byte PNG image of one pixel: signature, \<open>IHDR\<close>, \<open>IDAT\<close>, \<open>IEND\<close>.\<close>

definition png_1x1 :: buffer where
  "png_1x1 =
     [0x89, 0x50, 0x4e, 0x47, 0x0d, 0x0a, 0x1a, 0x0a, 0x00, 0x00, 0x00, 0x0d, 0x49, 0x48, 0x44,
      0x52, 0x00, 0x00, 0x00, 0x01, 0x00, 0x00, 0x00, 0x01, 0x01, 0x00, 0x00, 0x00, 0x00, 0x37,
      0x6e, 0xf9, 0x24, 0x00, 0x00, 0x00, 0x0a, 0x49, 0x44, 0x41, 0x54, 0x78, 0xda, 0x63, 0x60,
      0x00, 0x00, 0x00, 0x02, 0x00, 0x01, 0xe5, 0x27, 0xde, 0xfc, 0x00, 0x00, 0x00, 0x00, 0x49,
      0x45, 0x4e, 0x44, 0xae, 0x42, 0x60, 0x82]"

text \<open>A small well-formed PDF text, and a GIF header.\<close>

definition pdf_min :: buffer where
  "pdf_min = Buffer_from ''%PDF-1.4 1 0 obj xref trailer startxref %%EOF''"

definition gif_header :: buffer where
  "gif_header = Buffer_from ''GIF89a''"

text \<open>A request whose stream delivers the given chunks and ends.\<close>

definition request_of :: "buffer list \<Rightarrow> request" where
  "request_of cs = \<lparr>events = map Data cs @ [End], x_file_name = None, content_type = None\<rparr>"

definition env0 :: env where
  "env0 = \<lparr>uuid = ''9b2f6c1e-5d4a-4e6f-8a7b-0c1d2e3f4a5b'',
           now_iso = ''2024-01-01T00:00:00.000Z'',
           now_ms = 1704067200000,
           scan = Scan_settles\<rparr>"

text \<open>A text with the PDF header and an object, but no cross-reference table or trailer.\<close>

definition pdf_no_tables :: buffer where
  "pdf_no_tables = Buffer_from ''%PDF-1.4 1 0 obj %%EOF''"

text \<open>Sample records, and stores whose partitions hold one hundred of them.\<close>

definition sample_file :: "string \<Rightarrow> FileUploadEntity" where
  "sample_file i =
     \<lparr>id' = i, fileName = ''upload.png'', fileSize = 67, fileSizeFormatted = ''0.07 KB'',
      mimeType = ''image/png'', buffer = png_1x1, uploadedAt = now_iso env0,
      width = 1, height = 1, dimensions = ''1 x 1'',
      previewUrl = generatePreviewUrl png_1x1 ''image/png''\<rparr>"

definition sample_pdf :: "scan_result \<Rightarrow> string \<Rightarrow> PDFUploadEntity" where
  "sample_pdf sr i =
     \<lparr>id' = i, fileName = ''upload.pdf'', fileSize = 45, fileSizeFormatted = ''0.04 KB'',
      mimeType = ''application/pdf'', buffer = pdf_min, uploadedAt = now_iso env0,
      integrityValid = True, corruptionType = None, scanResult = sr,
      token = generateAccessToken i (now_ms env0), status = Concluido\<rparr>"

definition hundred :: "(string \<Rightarrow> 'v) \<Rightarrow> 'v js_map" where
  "hundred f = map (\<lambda>n. (show_nat n, f (show_nat n))) [0..<100]"

definition full_file_store :: FileUploadStore where
  "full_file_store = \<lparr>file_records = hundred sample_file\<rparr>"

definition full_primary :: PDFUploadStore where
  "full_primary =
     \<lparr>records = hundred (sample_pdf Limpo), isolatedRecords = [], uploadInProgress = None\<rparr>"

definition full_isolated :: PDFUploadStore where
  "full_isolated =
     \<lparr>records = [], isolatedRecords = hundred (sample_pdf Erro_scan), uploadInProgress = None\<rparr>"

section \<open>Invariants of the document store\<close>

text \<open>
  What \<open>pdfUploadProcess\<close> writes into every entity, and where an entity is put.
\<close>

definition stored_ok :: "PDFUploadEntity \<Rightarrow> bool" where
  "stored_ok e \<longleftrightarrow>
     integrityValid e \<and> corruptionType e = None \<and> status e = Concluido
     \<and> isPDFFile (buffer e) \<and> valid (validatePDFStructure (buffer e))"

definition partitions_ok :: "PDFUploadStore \<Rightarrow> bool" where
  "partitions_ok st \<longleftrightarrow>
     list_all (\<lambda>e. stored_ok e \<and> scanResult e = Limpo) (map snd (records st))
     \<and> list_all (\<lambda>e. stored_ok e \<and> scanResult e = Erro_scan) (map snd (isolatedRecords st))"

text \<open>The settled errors of the ingestion.\<close>

definition ingest_codes :: "ingest \<Rightarrow> bool" where
  "ingest_codes st \<longleftrightarrow>
     (case settled st of
        Some (Inl e) \<Rightarrow> code e = FILE_TOO_LARGE \<or> code e = VALIDATION_ERROR \<or> code e = UPLOAD_FAILED
      | _ \<Rightarrow> True)"

text \<open>A second environment: another id, and the scan timing out.\<close>

definition env1 :: env where
  "env1 = \<lparr>uuid = ''1c7d9e2a-3b4f-4a5c-9d6e-7f8091a2b3c4'',
           now_iso = ''2024-01-01T00:00:01.000Z'',
           now_ms = 1704067201000,
           scan = Timeout_settles\<rparr>"

text \<open>
  Stores reached by uploads of the small PDF: one accepted upload; then a second one whose
  scan times out; and the store while the first upload is still in flight.
\<close>

definition t_one_clean :: PDFUploadStore where
  "t_one_clean = fst (pdfUploadProcess pdfUploadStore0 (request_of [pdf_min]) env0)"

definition t_clean_and_quarantined :: PDFUploadStore where
  "t_clean_and_quarantined = fst (pdfUploadProcess t_one_clean (request_of [pdf_min]) env1)"

definition t_in_flight :: PDFUploadStore where
  "t_in_flight = fst (pdfUploadBegin pdfUploadStore0 (uuid env0))"

definition clean_entity :: PDFUploadEntity where
  "clean_entity = newPDFUploadEntity (uuid env0) (request_of [pdf_min]) env0 pdf_min Limpo"

definition quarantined_entity :: PDFUploadEntity where
  "quarantined_entity =
     newPDFUploadEntity (uuid env1) (request_of [pdf_min]) env1 pdf_min Erro_scan"

text \<open>Chunks one byte over the two size limits, and a transport error.\<close>

definition oversize_image :: buffer where
  "oversize_image = replicate (10 * 1024 * 1024 + 1) 0"

definition oversize_document :: buffer where
  "oversize_document = replicate (50 * 1024 * 1024 + 1) 0"

definition connection_reset :: js_error where
  "connection_reset = \<lparr>rangeError = False, node_code = Some ''ECONNRESET'', message = ''aborted''\<rparr>"

text \<open>A request with the given stream events and no headers.\<close>

definition stream_of :: "stream_event list \<Rightarrow> request" where
  "stream_of evs = \<lparr>events = evs, x_file_name = None, content_type = None\<rparr>"



definition t_one_png :: FileUploadStore where
  "t_one_png = fst (fileUploadProcess fileUploadStore0 (request_of [png_1x1]) env0)"



text \<open>The response to the upload of the one-pixel PNG.\<close>

definition png_response :: js_object where
  "png_response =
     rest_without [''buffer'']
       (FileUploadEntity_object (newFileUploadEntity (request_of [png_1x1]) env0 png_1x1 1 1))"

text \<open>The response to the accepted upload of the small PDF.\<close>

definition pdf_response :: js_object where
  "pdf_response = rest_without [''buffer'', ''status''] (PDFUploadEntity_object clean_entity)"

section \<open>Evaluation and ingestion lemmas\<close>

lemma char_of_nat_bits:
  "char_of (n::nat) = Char (odd n) (odd (n div 2)) (odd (n div 4)) (odd (n div 8))
     (odd (n div 16)) (odd (n div 32)) (odd (n div 64)) (odd (n div 128))"
  by (simp add: char_of_def bit_iff_odd)

subsection \<open>Ingestion\<close>

lemma settled_handle_stable:
  "settled st = Some r \<Longrightarrow> settled (handle limit st e) = Some r"
  by (cases e) (simp_all add: on_data_def on_end_def on_error_def settle_def Let_def)

lemma settled_foldl_stable:
  "settled st = Some r \<Longrightarrow> settled (foldl (handle limit) st evs) = Some r"
  by (induction evs arbitrary: st) (simp_all add: settled_handle_stable)

lemma foldl_data_within:
  "settled st = None \<Longrightarrow> totalSize st + sum_list (map length cs) \<le> limit
   \<Longrightarrow> foldl (handle limit) st (map Data cs)
       = st\<lparr>totalSize := totalSize st + sum_list (map length cs), chunks := chunks st @ cs\<rparr>"
proof (induction cs arbitrary: st)
  case Nil
  then show ?case by simp
next
  case (Cons c cs)
  let ?st1 = "on_data limit c st"
  have st1: "?st1 = st\<lparr>totalSize := totalSize st + length c, chunks := chunks st @ [c]\<rparr>"
    using Cons.prems by (simp add: on_data_def Let_def)
  have "foldl (handle limit) ?st1 (map Data cs)
        = ?st1\<lparr>totalSize := totalSize ?st1 + sum_list (map length cs), chunks := chunks ?st1 @ cs\<rparr>"
    using Cons.prems by (intro Cons.IH) (simp_all add: st1)
  then show ?case by (simp add: st1 add.assoc)
qed

lemma ingest_data_within:
  "sum_list (map length cs) \<le> limit
   \<Longrightarrow> foldl (handle limit) ingest0 (map Data cs)
       = \<lparr>chunks = cs, totalSize = sum_list (map length cs), settled = None\<rparr>"
  using foldl_data_within [of ingest0 cs limit] by (simp add: ingest0_def)

lemma ingest_too_large:
  assumes "sum_list (map length cs) \<le> limit" and "limit < sum_list (map length cs) + length c"
  shows "processMultipartUpload limit (map Data cs @ Data c # rest)
         = Some (Inl (ServiceError FILE_TOO_LARGE 413 NoDetails))"
proof -
  have "settled (on_data limit c (foldl (handle limit) ingest0 (map Data cs)))
        = Some (Inl (ServiceError FILE_TOO_LARGE 413 NoDetails))"
    using assms by (simp add: ingest_data_within on_data_def settle_def Let_def)
  then show ?thesis
    by (simp add: processMultipartUpload_def settled_foldl_stable)
qed

lemma ingest_end:
  assumes "sum_list (map length cs) \<le> limit"
  shows "processMultipartUpload limit (map Data cs @ End # rest)
         = Some (if cs = [] then Inl (ServiceError VALIDATION_ERROR 400 NoDetails)
                 else Inr (concat cs))"
proof -
  have "settled (on_end (foldl (handle limit) ingest0 (map Data cs)))
        = Some (if cs = [] then Inl (ServiceError VALIDATION_ERROR 400 NoDetails)
                 else Inr (concat cs))"
    using assms by (simp add: ingest_data_within on_end_def settle_def)
  then show ?thesis
    by (simp add: processMultipartUpload_def settled_foldl_stable)
qed

lemma ingest_error:
  assumes "sum_list (map length cs) \<le> limit"
  shows "processMultipartUpload limit (map Data cs @ StreamError err # rest)
         = Some (Inl (ServiceError UPLOAD_FAILED 500 (Cause err)))"
proof -
  have "settled (on_error err (foldl (handle limit) ingest0 (map Data cs)))
        = Some (Inl (ServiceError UPLOAD_FAILED 500 (Cause err)))"
    using assms by (simp add: ingest_data_within on_error_def settle_def)
  then show ?thesis
    by (simp add: processMultipartUpload_def settled_foldl_stable)
qed

lemma ingest_pending:
  assumes "sum_list (map length cs) \<le> limit"
  shows "processMultipartUpload limit (map Data cs) = None"
  using assms by (simp add: processMultipartUpload_def ingest_data_within)

text \<open>A resolved buffer never exceeds the limit.\<close>

lemma ingest_ok_handle: "ingest_ok limit st \<Longrightarrow> ingest_ok limit (handle limit st e)"
  by (cases e) (auto simp add: ingest_ok_def on_data_def on_end_def on_error_def settle_def Let_def
      split: option.splits)

lemma ingest_ok_foldl: "ingest_ok limit st \<Longrightarrow> ingest_ok limit (foldl (handle limit) st evs)"
  by (induction evs arbitrary: st) (simp_all add: ingest_ok_handle)

lemma resolved_within_limit:
  "processMultipartUpload limit evs = Some (Inr buf) \<Longrightarrow> length buf \<le> limit"
  using ingest_ok_foldl [of limit ingest0 evs]
  by (simp add: processMultipartUpload_def ingest_ok_def ingest0_def)

section \<open>Signature validation\<close>

lemma store_gate_clear_id:
  "\<not> hasUploadInProgress st \<Longrightarrow> clearUploadInProgress (setUploadInProgress u st) = st"
  by (cases st) (simp add: hasUploadInProgress_def clearUploadInProgress_def setUploadInProgress_def)

lemma isPNGFile_iff:
  "isPNGFile buf \<longleftrightarrow> 8 \<le> length buf \<and> take 8 buf = [0x89, 0x50, 0x4e, 0x47, 0x0d, 0x0a, 0x1a, 0x0a]"
proof -
  have "length PNG_SIGNATURE = 8" by (simp add: PNG_SIGNATURE_def)
  then have "isPNGFile buf \<longleftrightarrow> 8 \<le> length buf \<and> take 8 buf = PNG_SIGNATURE"
    unfolding isPNGFile_def by auto
  then show ?thesis by (simp only: PNG_SIGNATURE_def)
qed

lemma isPDFFile_iff:
  "isPDFFile buf \<longleftrightarrow> 5 \<le> length buf \<and> take 5 buf = [0x25, 0x50, 0x44, 0x46, 0x2d]"
proof -
  have "length PDF_SIGNATURE = 5" by (simp add: PDF_SIGNATURE_def)
  then have "isPDFFile buf \<longleftrightarrow> 5 \<le> length buf \<and> take 5 buf = PDF_SIGNATURE"
    unfolding isPDFFile_def by auto
  then show ?thesis by (simp only: PDF_SIGNATURE_def)
qed

lemma take_differs:
  assumes "i < n" "i < length buf" "buf ! i \<noteq> sig ! i"
  shows "take n buf \<noteq> sig"
proof
  assume "take n buf = sig"
  then have "sig ! i = take n buf ! i" by simp
  also have "\<dots> = buf ! i" using assms by simp
  finally show False using assms by simp
qed

lemma fileUpload_rejects_signature:
  assumes "processMultipartUpload FILE_MAX_FILE_SIZE (events req) = Some (Inr buf)"
    and "\<not> isPNGFile buf"
  shows "fileUploadProcess st req ev = (st, Some (Inl (ServiceError INVALID_FILE_TYPE 400 NoDetails)))"
proof -
  have "length buf \<le> FILE_MAX_FILE_SIZE" using assms(1) by (rule resolved_within_limit)
  then show ?thesis using assms
    by (simp add: fileUploadProcess_def fileUploadTry_def upload_catch_def)
qed

lemma pdfUpload_rejects_signature:
  assumes "\<not> hasUploadInProgress st"
    and "processMultipartUpload PDF_MAX_FILE_SIZE (events req) = Some (Inr buf)"
    and "\<not> isPDFFile buf"
  shows "pdfUploadProcess st req ev = (st, Some (Inl (ServiceError INVALID_FILE_TYPE 400 NoDetails)))"
proof -
  have "length buf \<le> PDF_MAX_FILE_SIZE" using assms(2) by (rule resolved_within_limit)
  then show ?thesis using assms
    by (simp add: pdfUploadProcess_def pdfUploadBegin_def pdfUploadBody_def pdfUploadTry_def
        upload_catch_def store_gate_clear_id)
qed

text \<open>
  Claim C5.  A buffer is accepted as PNG exactly when it has at least eight bytes and the
  first eight are \<open>89 50 4E 47 0D 0A 1A 0A\<close>, and as PDF exactly when it has at least five
  bytes and the first five are \<open>25 50 44 46 2D\<close>; a buffer that differs from the magic
  sequence at any of these positions is rejected.  When the assembled buffer is rejected
  the upload fails with \<open>INVALID_FILE_TYPE\<close> and the store is as before, whatever file name
  and content type the request declares.
\<close>

theorem signature_validation:
  "(isPNGFile buf \<longleftrightarrow>
      8 \<le> length buf \<and> take 8 buf = [0x89, 0x50, 0x4e, 0x47, 0x0d, 0x0a, 0x1a, 0x0a])
   \<and> (isPDFFile buf \<longleftrightarrow> 5 \<le> length buf \<and> take 5 buf = [0x25, 0x50, 0x44, 0x46, 0x2d])
   \<and> (i < 8 \<and> i < length buf \<and> buf ! i \<noteq> [0x89, 0x50, 0x4e, 0x47, 0x0d, 0x0a, 0x1a, 0x0a] ! i
        \<longrightarrow> \<not> isPNGFile buf)
   \<and> (i < 5 \<and> i < length buf \<and> buf ! i \<noteq> [0x25, 0x50, 0x44, 0x46, 0x2d] ! i
        \<longrightarrow> \<not> isPDFFile buf)
   \<and> (processMultipartUpload FILE_MAX_FILE_SIZE (events req) = Some (Inr buf) \<and> \<not> isPNGFile buf
        \<longrightarrow> (\<forall>name ct. fileUploadProcess fs (req\<lparr>x_file_name := name, content_type := ct\<rparr>) ev
               = (fs, Some (Inl (ServiceError INVALID_FILE_TYPE 400 NoDetails)))))
   \<and> (\<not> hasUploadInProgress pst
        \<and> processMultipartUpload PDF_MAX_FILE_SIZE (events req) = Some (Inr buf) \<and> \<not> isPDFFile buf
        \<longrightarrow> (\<forall>name ct. pdfUploadProcess pst (req\<lparr>x_file_name := name, content_type := ct\<rparr>) ev
               = (pst, Some (Inl (ServiceError INVALID_FILE_TYPE 400 NoDetails)))))"
proof (intro conjI impI allI)
  show "isPNGFile buf \<longleftrightarrow>
      8 \<le> length buf \<and> take 8 buf = [0x89, 0x50, 0x4e, 0x47, 0x0d, 0x0a, 0x1a, 0x0a]"
    by (rule isPNGFile_iff)
  show "isPDFFile buf \<longleftrightarrow> 5 \<le> length buf \<and> take 5 buf = [0x25, 0x50, 0x44, 0x46, 0x2d]"
    by (rule isPDFFile_iff)
next
  assume "i < 8 \<and> i < length buf \<and> buf ! i \<noteq> [0x89, 0x50, 0x4e, 0x47, 0x0d, 0x0a, 0x1a, 0x0a] ! i"
  then show "\<not> isPNGFile buf"
    using take_differs [of i 8 buf] by (auto simp add: isPNGFile_iff)
next
  assume "i < 5 \<and> i < length buf \<and> buf ! i \<noteq> [0x25, 0x50, 0x44, 0x46, 0x2d] ! i"
  then show "\<not> isPDFFile buf"
    using take_differs [of i 5 buf] by (auto simp add: isPDFFile_iff)
next
  fix name ct
  assume "processMultipartUpload FILE_MAX_FILE_SIZE (events req) = Some (Inr buf) \<and> \<not> isPNGFile buf"
  then show "fileUploadProcess fs (req\<lparr>x_file_name := name, content_type := ct\<rparr>) ev
      = (fs, Some (Inl (ServiceError INVALID_FILE_TYPE 400 NoDetails)))"
    by (intro fileUpload_rejects_signature [of _ buf]) simp_all
next
  fix name ct
  assume "\<not> hasUploadInProgress pst
        \<and> processMultipartUpload PDF_MAX_FILE_SIZE (events req) = Some (Inr buf) \<and> \<not> isPDFFile buf"
  then show "pdfUploadProcess pst (req\<lparr>x_file_name := name, content_type := ct\<rparr>) ev
      = (pst, Some (Inl (ServiceError INVALID_FILE_TYPE 400 NoDetails)))"
    by (intro pdfUpload_rejects_signature [of _ _ buf]) simp_all
qed

lemma gif_ingested_file:
  "processMultipartUpload FILE_MAX_FILE_SIZE (events (request_of [gif_header])) = Some (Inr gif_header)"
  using ingest_end [of "[gif_header]" FILE_MAX_FILE_SIZE "[]"]
  by (simp add: request_of_def gif_header_def Buffer_from_def FILE_MAX_FILE_SIZE_def)

lemma gif_ingested_pdf:
  "processMultipartUpload PDF_MAX_FILE_SIZE (events (request_of [gif_header])) = Some (Inr gif_header)"
  using ingest_end [of "[gif_header]" PDF_MAX_FILE_SIZE "[]"]
  by (simp add: request_of_def gif_header_def Buffer_from_def PDF_MAX_FILE_SIZE_def)

lemma gif_no_signature: "\<not> isPNGFile gif_header" "\<not> isPDFFile gif_header"
  by (simp_all add: isPNGFile_iff isPDFFile_iff gif_header_def Buffer_from_def)

theorem signature_validation_witness:
  "isPNGFile png_1x1 \<and> isPDFFile pdf_min
   \<and> \<not> isPNGFile (take 7 png_1x1) \<and> \<not> isPNGFile (png_1x1[3 := 0x48])
   \<and> \<not> isPDFFile (take 4 pdf_min) \<and> \<not> isPDFFile (pdf_min[4 := 0x2e])
   \<and> processMultipartUpload FILE_MAX_FILE_SIZE (events (request_of [gif_header])) = Some (Inr gif_header)
   \<and> \<not> isPNGFile gif_header
   \<and> fileUploadProcess fileUploadStore0
        ((request_of [gif_header])\<lparr>x_file_name := Some ''a.png'', content_type := Some ''image/png''\<rparr>) env0
      = (fileUploadStore0, Some (Inl (ServiceError INVALID_FILE_TYPE 400 NoDetails)))
   \<and> \<not> hasUploadInProgress pdfUploadStore0
   \<and> processMultipartUpload PDF_MAX_FILE_SIZE (events (request_of [gif_header])) = Some (Inr gif_header)
   \<and> \<not> isPDFFile gif_header
   \<and> pdfUploadProcess pdfUploadStore0
        ((request_of [gif_header])\<lparr>x_file_name := Some ''a.pdf'', content_type := Some ''application/pdf''\<rparr>) env0
      = (pdfUploadStore0, Some (Inl (ServiceError INVALID_FILE_TYPE 400 NoDetails)))"
proof -
  have g: "\<not> hasUploadInProgress pdfUploadStore0"
    by (simp add: hasUploadInProgress_def pdfUploadStore0_def)
  have a: "isPNGFile png_1x1" "isPDFFile pdf_min"
    using signature_validation [where buf = png_1x1] signature_validation [where buf = pdf_min]
    by (simp_all add: png_1x1_def pdf_min_def Buffer_from_def)
  have b: "\<not> isPNGFile (take 7 png_1x1)" "\<not> isPDFFile (take 4 pdf_min)"
    using signature_validation [where buf = "take 7 png_1x1"] signature_validation [where buf = "take 4 pdf_min"]
    by (simp_all add: png_1x1_def pdf_min_def Buffer_from_def)
  have c: "\<not> isPNGFile (png_1x1[3 := 0x48])"
    using signature_validation [where i = 3 and buf = "png_1x1[3 := 0x48]"] by (simp add: png_1x1_def)
  have d: "\<not> isPDFFile (pdf_min[4 := 0x2e])"
    using signature_validation [where i = 4 and buf = "pdf_min[4 := 0x2e]"] by (simp add: pdf_min_def Buffer_from_def)
  show ?thesis
    using a b c d g gif_ingested_file gif_ingested_pdf gif_no_signature
      signature_validation [where buf = gif_header and req = "request_of [gif_header]" and fs = fileUploadStore0
        and ev = env0 and pst = pdfUploadStore0]
    by simp
qed

section \<open>PDF structure\<close>

lemma latin1_Buffer_from [simp]: "toString_latin1 (Buffer_from s) = s"
  by (induction s) (simp_all add: toString_latin1_def Buffer_from_def unat_of_nat)

lemma byte_of_latin1: "(of_nat (of_char (char_of (unat b) :: char)) :: byte) = b"
proof -
  have "unat b < 256" using unsigned_less [of b, where ?'a = nat] by simp
  then show ?thesis by simp
qed

lemma Buffer_from_latin1 [simp]: "Buffer_from (toString_latin1 buf) = buf"
  by (induction buf) (simp_all add: toString_latin1_def Buffer_from_def byte_of_latin1 del: of_char_of)

lemma latin1_prefix:
  "prefix p (toString_latin1 buf) \<longleftrightarrow> prefix (Buffer_from p) buf"
proof
  assume "prefix p (toString_latin1 buf)"
  then have "prefix (Buffer_from p) (Buffer_from (toString_latin1 buf))"
    unfolding Buffer_from_def by (rule map_mono_prefix)
  then show "prefix (Buffer_from p) buf" by simp
next
  assume "prefix (Buffer_from p) buf"
  then have "prefix (toString_latin1 (Buffer_from p)) (toString_latin1 buf)"
    unfolding toString_latin1_def by (rule map_mono_prefix)
  then show "prefix p (toString_latin1 buf)" by simp
qed

lemma prefix_take_iff: "prefix p xs \<longleftrightarrow> length p \<le> length xs \<and> take (length p) xs = p"
  by (metis prefix_length_le take_is_prefix take_all_iff append_eq_conv_conj prefix_def)

lemma isPDFFile_startsWith: "isPDFFile buf \<longleftrightarrow> startsWith (toString_latin1 buf) ''%PDF-''"
proof -
  have "Buffer_from ''%PDF-'' = PDF_SIGNATURE"
    by (simp add: Buffer_from_def PDF_SIGNATURE_def)
  moreover have "isPDFFile buf \<longleftrightarrow> prefix PDF_SIGNATURE buf"
    by (auto simp add: isPDFFile_def prefix_take_iff)
  ultimately show ?thesis
    by (simp add: startsWith_def latin1_prefix)
qed

text \<open>
  Claim C4.  The result of \<open>validatePDFStructure\<close> is decided by the first failing check in
  the order header, \<open>xref\<close>, \<open>trailer\<close>, \<open>startxref\<close>, \<open>%%EOF\<close>, object pattern, and by
  nothing after it; a buffer with the PDF signature whose text has neither \<open>xref\<close> nor
  \<open>trailer\<close> reports \<open>xref_corrompida\<close>.
\<close>

theorem pdf_structure_first_failure:
  "validatePDFStructure buf =
     (case find (\<lambda>(passed, kind, msg). \<not> passed)
        [(startsWith (toString_latin1 buf) ''%PDF-'', Cabecalho_invalido, Msg_header),
         (includes_str (toString_latin1 buf) ''xref'', Xref_corrompida, Msg_xref),
         (includes_str (toString_latin1 buf) ''trailer'', Trailer_ausente, Msg_trailer),
         (includes_str (toString_latin1 buf) ''startxref'', Estrutura_invalida, Msg_startxref),
         (includes_str (toString_latin1 buf) ''%%EOF'', Estrutura_invalida, Msg_eof),
         (hasObjects (toString_latin1 buf), Objeto_corrompido, Msg_objects)]
      of None \<Rightarrow> \<lparr>valid = True, corruption = None\<rparr>
       | Some (passed, kind, msg) \<Rightarrow>
           \<lparr>valid = False, corruption = Some \<lparr>ctype = kind, cmessage = msg\<rparr>\<rparr>)
   \<and> (isPDFFile buf \<and> \<not> includes_str (toString_latin1 buf) ''xref''
         \<and> \<not> includes_str (toString_latin1 buf) ''trailer''
       \<longrightarrow> validatePDFStructure buf
            = \<lparr>valid = False, corruption = Some \<lparr>ctype = Xref_corrompida, cmessage = Msg_xref\<rparr>\<rparr>)"
  by (simp add: validatePDFStructure_def corrupt_def isPDFFile_startsWith Let_def)

lemma pdf_no_tables_facts:
  "isPDFFile pdf_no_tables"
  "\<not> includes_str (toString_latin1 pdf_no_tables) ''xref''"
  "\<not> includes_str (toString_latin1 pdf_no_tables) ''trailer''"
  unfolding pdf_no_tables_def by code_simp+

lemma pdf_min_valid: "validatePDFStructure pdf_min = \<lparr>valid = True, corruption = None\<rparr>"
  unfolding pdf_min_def by code_simp

lemma pdf_min_signature: "isPDFFile pdf_min"
  unfolding pdf_min_def by code_simp

theorem pdf_structure_first_failure_witness:
  "isPDFFile pdf_no_tables
   \<and> \<not> includes_str (toString_latin1 pdf_no_tables) ''xref''
   \<and> \<not> includes_str (toString_latin1 pdf_no_tables) ''trailer''
   \<and> validatePDFStructure pdf_no_tables
       = \<lparr>valid = False, corruption = Some \<lparr>ctype = Xref_corrompida, cmessage = Msg_xref\<rparr>\<rparr>"
  using pdf_structure_first_failure [of pdf_no_tables, THEN conjunct2] pdf_no_tables_facts
  by blast

section \<open>Store capacity\<close>

lemma Map_has_iff: "Map_has m k \<longleftrightarrow> k \<in> fst ` set m"
  by (simp add: Map_has_def map_of_eq_None_iff)

lemma Map_delete_shrinks:
  assumes "Map_has m k"
  shows "Map_size (fst (Map_delete k m)) < Map_size m"
proof -
  from assms obtain v where "(k, v) \<in> set m"
    by (auto simp add: Map_has_iff)
  then have "length (filter (\<lambda>(k', _). k \<noteq> k') m) < length m"
    by (intro length_filter_less [of "(k, v)"]) simp_all
  then show ?thesis
    by (simp add: Map_delete_def Map_size_def AList.delete_eq)
qed

lemma Map_get_set: "Map_get (Map_set k v m) k = Some v"
  by (simp add: Map_get_def Map_set_def update_Some_unfold)

lemma FileUploadStore_delete_fst:
  "fst (FileUploadStore_delete fs i) = fs\<lparr>file_records := fst (Map_delete i (file_records fs))\<rparr>"
  by (simp add: FileUploadStore_delete_def case_prod_beta)

lemma FileUploadStore_delete_then_add:
  assumes "Map_size (file_records fs) \<le> MAX_RECORDS" and "FileUploadStore_exists fs i"
  shows "\<exists>fs'. FileUploadStore_add (fst (FileUploadStore_delete fs i)) r = Inr fs'
               \<and> FileUploadStore_getById fs' (id' r) = Some r"
proof -
  have "Map_size (fst (Map_delete i (file_records fs))) < MAX_RECORDS"
    using assms Map_delete_shrinks [of "file_records fs" i]
    by (simp add: FileUploadStore_exists_def)
  then show ?thesis
    by (simp add: FileUploadStore_add_def FileUploadStore_delete_fst FileUploadStore_getById_def
        Map_get_set)
qed

lemma PDFUploadStore_delete_primary:
  assumes "Map_has (records ps) i"
  shows "fst (PDFUploadStore_delete ps i) = ps\<lparr>records := fst (Map_delete i (records ps))\<rparr>"
  using assms by (simp add: PDFUploadStore_delete_def Map_delete_def)

lemma PDFUploadStore_delete_then_add:
  assumes "Map_size (records ps) \<le> MAX_RECORDS" and "Map_has (records ps) i"
  shows "\<exists>ps'. PDFUploadStore_add (fst (PDFUploadStore_delete ps i)) r = Inr ps'
               \<and> PDFUploadStore_getById ps' (id' r) = Some r"
proof -
  have "Map_size (fst (Map_delete i (records ps))) < MAX_RECORDS"
    using assms Map_delete_shrinks [of "records ps" i] by simp
  then show ?thesis
    using assms(2)
    by (simp add: PDFUploadStore_add_def PDFUploadStore_delete_primary PDFUploadStore_getById_def
        Map_get_set)
qed

text \<open>
  Claim C6.  In both stores \<open>add\<close> fails with the capacity error when the primary partition
  holds 100 records, and succeeds again after the \<open>delete\<close> of an id that the primary
  partition holds: the bound is on the live size of the map.  \<open>addToIsolated\<close> fails exactly
  when the isolated partition holds 100 records, whatever the size of the primary one.
\<close>

theorem store_capacity:
  "(Map_size (file_records fs) = 100
      \<longrightarrow> FileUploadStore_add fs fr = Inl (limit_reached ''Maximum file upload limit reached''))
   \<and> (Map_size (file_records fs) = 100 \<and> FileUploadStore_exists fs i
      \<longrightarrow> (\<exists>fs'. FileUploadStore_add (fst (FileUploadStore_delete fs i)) fr = Inr fs'
                 \<and> FileUploadStore_getById fs' (id' fr) = Some fr))
   \<and> (Map_size (records ps) = 100
      \<longrightarrow> PDFUploadStore_add ps pr = Inl (limit_reached ''Maximum file upload limit reached''))
   \<and> (Map_size (records ps) = 100 \<and> Map_has (records ps) i
      \<longrightarrow> (\<exists>ps'. PDFUploadStore_add (fst (PDFUploadStore_delete ps i)) pr = Inr ps'
                 \<and> PDFUploadStore_getById ps' (id' pr) = Some pr))
   \<and> (Map_size (isolatedRecords ps) = 100
      \<longrightarrow> addToIsolated ps pr = Inl (limit_reached ''Maximum isolated file limit reached''))
   \<and> (Map_size (isolatedRecords ps) < 100
      \<longrightarrow> addToIsolated ps pr
           = Inr (ps\<lparr>isolatedRecords := Map_set (id' pr) pr (isolatedRecords ps)\<rparr>))"
proof (intro conjI impI)
  assume "Map_size (file_records fs) = 100 \<and> FileUploadStore_exists fs i"
  then show "\<exists>fs'. FileUploadStore_add (fst (FileUploadStore_delete fs i)) fr = Inr fs'
                 \<and> FileUploadStore_getById fs' (id' fr) = Some fr"
    by (intro FileUploadStore_delete_then_add) (simp_all add: MAX_RECORDS_def)
next
  assume "Map_size (records ps) = 100 \<and> Map_has (records ps) i"
  then show "\<exists>ps'. PDFUploadStore_add (fst (PDFUploadStore_delete ps i)) pr = Inr ps'
                 \<and> PDFUploadStore_getById ps' (id' pr) = Some pr"
    by (intro PDFUploadStore_delete_then_add) (simp_all add: MAX_RECORDS_def)
qed (simp_all add: FileUploadStore_add_def PDFUploadStore_add_def addToIsolated_def MAX_RECORDS_def)

lemma hundred_size: "Map_size (hundred f) = 100"
  by (simp add: hundred_def Map_size_def)

lemma hundred_has_0: "Map_has (hundred f) ''0''"
proof -
  have "show_nat 0 = ''0''" by (simp add: show_nat.simps char_of_nat_bits)
  moreover have "(0::nat) \<in> set [0..<100]" by simp
  ultimately have "(''0'', f ''0'') \<in> set (hundred f)"
    unfolding hundred_def set_map by (metis (mono_tags, lifting) imageI)
  then show ?thesis by (force simp add: Map_has_iff)
qed

theorem store_capacity_witness:
  "Map_size (file_records full_file_store) = 100
   \<and> FileUploadStore_add full_file_store (sample_file ''new'')
       = Inl (limit_reached ''Maximum file upload limit reached'')
   \<and> FileUploadStore_exists full_file_store ''0''
   \<and> (\<exists>fs'. FileUploadStore_add (fst (FileUploadStore_delete full_file_store ''0'')) (sample_file ''new'') = Inr fs')
   \<and> Map_size (records full_primary) = 100 \<and> Map_has (records full_primary) ''0''
   \<and> PDFUploadStore_add full_primary (sample_pdf Limpo ''new'')
       = Inl (limit_reached ''Maximum file upload limit reached'')
   \<and> (\<exists>ps'. PDFUploadStore_add (fst (PDFUploadStore_delete full_primary ''0'')) (sample_pdf Limpo ''new'') = Inr ps')
   \<and> Map_size (isolatedRecords full_primary) < 100
   \<and> (\<exists>ps'. addToIsolated full_primary (sample_pdf Erro_scan ''new'') = Inr ps')
   \<and> Map_size (isolatedRecords full_isolated) = 100
   \<and> addToIsolated full_isolated (sample_pdf Erro_scan ''new'')
       = Inl (limit_reached ''Maximum isolated file limit reached'')"
proof -
  have f: "Map_size (file_records full_file_store) = 100" "FileUploadStore_exists full_file_store ''0''"
    by (simp_all add: full_file_store_def hundred_size hundred_has_0 FileUploadStore_exists_def)
  have p: "Map_size (records full_primary) = 100" "Map_has (records full_primary) ''0''"
    "Map_size (isolatedRecords full_primary) < 100"
    by (simp_all add: full_primary_def hundred_size hundred_has_0) (simp add: Map_size_def)
  have q: "Map_size (isolatedRecords full_isolated) = 100"
    by (simp add: full_isolated_def hundred_size)
  note A = store_capacity [where fs = full_file_store and i = "''0''"
      and fr = "sample_file ''new''" and ps = full_primary and pr = "sample_pdf Limpo ''new''"]
  note B = store_capacity [where ps = full_primary and pr = "sample_pdf Erro_scan ''new''"]
  note C = store_capacity [where ps = full_isolated and pr = "sample_pdf Erro_scan ''new''"]
  have 1: "FileUploadStore_add full_file_store (sample_file ''new'')
       = Inl (limit_reached ''Maximum file upload limit reached'')"
    using A f by blast
  have 2: "\<exists>fs'. FileUploadStore_add (fst (FileUploadStore_delete full_file_store ''0''))
             (sample_file ''new'') = Inr fs'"
    using A f by blast
  have 3: "PDFUploadStore_add full_primary (sample_pdf Limpo ''new'')
       = Inl (limit_reached ''Maximum file upload limit reached'')"
    using A p by blast
  have 4: "\<exists>ps'. PDFUploadStore_add (fst (PDFUploadStore_delete full_primary ''0''))
             (sample_pdf Limpo ''new'') = Inr ps'"
    using A p by blast
  have 5: "\<exists>ps'. addToIsolated full_primary (sample_pdf Erro_scan ''new'') = Inr ps'"
    using B p by blast
  have 6: "addToIsolated full_isolated (sample_pdf Erro_scan ''new'')
       = Inl (limit_reached ''Maximum isolated file limit reached'')"
    using C q by blast
  show ?thesis
    using f p q 1 2 3 4 5 6 by blast
qed

section \<open>The document store under the three operations\<close>

lemma list_all_values_Map_set:
  "P v \<Longrightarrow> list_all P (map snd m) \<Longrightarrow> list_all P (map snd (Map_set k v m))"
  unfolding Map_set_def by (induction m) auto

lemma list_all_values_delete:
  "list_all P (map snd m) \<Longrightarrow> list_all P (map snd (AList.delete k m))"
  by (induction m) auto

lemma partitions_ok_gate [simp]:
  "partitions_ok (st\<lparr>uploadInProgress := g\<rparr>) = partitions_ok st"
  by (simp add: partitions_ok_def)

lemma partitions_ok_add:
  assumes "partitions_ok st" "stored_ok e" "scanResult e = Limpo"
  shows "partitions_ok (st\<lparr>records := Map_set k e (records st)\<rparr>)"
  using assms by (simp add: partitions_ok_def list_all_values_Map_set)

lemma partitions_ok_addToIsolated:
  assumes "partitions_ok st" "stored_ok e" "scanResult e = Erro_scan"
  shows "partitions_ok (st\<lparr>isolatedRecords := Map_set k e (isolatedRecords st)\<rparr>)"
  using assms by (simp add: partitions_ok_def list_all_values_Map_set)

lemma partitions_ok_delete:
  assumes "partitions_ok st"
  shows "partitions_ok (fst (PDFUploadStore_delete st i))"
  using assms
  by (cases "Map_has (records st) i")
     (simp_all add: partitions_ok_def PDFUploadStore_delete_def Map_delete_def list_all_values_delete)

lemma newPDFUploadEntity_sel [simp]:
  "id' (newPDFUploadEntity uploadId req ev buf scanned) = uploadId"
  "buffer (newPDFUploadEntity uploadId req ev buf scanned) = buf"
  "scanResult (newPDFUploadEntity uploadId req ev buf scanned) = scanned"
  "stored_ok (newPDFUploadEntity uploadId req ev buf scanned)
     \<longleftrightarrow> isPDFFile buf \<and> valid (validatePDFStructure buf)"
  by (simp_all add: newPDFUploadEntity_def stored_ok_def)

lemma partitions_ok_clear [simp]:
  "partitions_ok (clearUploadInProgress st) = partitions_ok st"
  by (simp add: clearUploadInProgress_def)

lemma partitions_ok_try:
  assumes "partitions_ok st"
  shows "partitions_ok (fst (pdfUploadTry st uploadId r req ev))"
proof (cases r)
  case (Inl e)
  then show ?thesis using assms by (simp add: pdfUploadTry_def)
next
  case (Inr buf)
  show ?thesis
    using assms
    by (cases "scan ev")
       (simp_all add: Inr pdfUploadTry_def Let_def scanForVirus_def PDFUploadStore_add_def
          addToIsolated_def partitions_ok_add partitions_ok_addToIsolated)
qed

lemma partitions_ok_body:
  assumes "partitions_ok st"
  shows "partitions_ok (fst (pdfUploadBody st uploadId req ev))"
proof (cases "processMultipartUpload PDF_MAX_FILE_SIZE (events req)")
  case None
  then show ?thesis using assms by (simp add: pdfUploadBody_def)
next
  case (Some r)
  show ?thesis
  proof (cases "pdfUploadTry st uploadId r req ev")
    case (Pair st' res)
    then have "partitions_ok st'"
      using partitions_ok_try [OF assms, of uploadId r req ev] by simp
    then show ?thesis
      by (cases res) (simp_all add: pdfUploadBody_def Some Pair)
  qed
qed

lemma partitions_ok_begin:
  "partitions_ok st \<Longrightarrow> partitions_ok (fst (pdfUploadBegin st fresh))"
  by (simp add: pdfUploadBegin_def setUploadInProgress_def)

lemma partitions_ok_cancel:
  "partitions_ok st \<Longrightarrow> partitions_ok (fst (pdfUploadCancel st params))"
  by (cases params) (simp_all add: pdfUploadCancel_def partitions_ok_delete)

lemma reachable_partitions_ok: "reachable st \<Longrightarrow> partitions_ok st"
proof (induction rule: reachable.induct)
  case r_init
  show ?case by (simp add: partitions_ok_def pdfUploadStore0_def)
qed (simp_all add: partitions_ok_begin partitions_ok_body partitions_ok_cancel)

lemma reachable_process:
  assumes "reachable st"
  shows "reachable (fst (pdfUploadProcess st req ev))"
proof (cases "hasUploadInProgress st")
  case True
  then show ?thesis using assms by (simp add: pdfUploadProcess_def pdfUploadBegin_def)
next
  case False
  have "reachable (setUploadInProgress (uuid ev) st)"
    using r_begin [OF assms, of "uuid ev"] False by (simp add: pdfUploadBegin_def)
  then have "reachable (fst (pdfUploadBody (setUploadInProgress (uuid ev) st) (uuid ev) req ev))"
    by (rule r_body) (simp add: setUploadInProgress_def)
  then show ?thesis using False by (simp add: pdfUploadProcess_def pdfUploadBegin_def)
qed


subsection \<open>The gate\<close>

lemma pdfUploadTry_success_clears:
  assumes "pdfUploadTry st uploadId r req ev = (st', Inr resp)"
  shows "uploadInProgress st' = None"
proof (cases r)
  case (Inl e)
  then show ?thesis using assms by (simp add: pdfUploadTry_def)
next
  case (Inr buf)
  show ?thesis
    using assms
    by (cases "scan ev")
       (auto simp add: Inr pdfUploadTry_def Let_def scanForVirus_def PDFUploadStore_add_def
          addToIsolated_def clearUploadInProgress_def split: if_splits)
qed

lemma pdfUploadBody_clears:
  assumes "pdfUploadBody st uploadId req ev = (st', Some res)"
  shows "\<not> hasUploadInProgress st'"
proof (cases "processMultipartUpload PDF_MAX_FILE_SIZE (events req)")
  case None
  then show ?thesis using assms by (simp add: pdfUploadBody_def)
next
  case (Some r)
  show ?thesis
  proof (cases "pdfUploadTry st uploadId r req ev")
    case (Pair st1 out)
    show ?thesis
    proof (cases out)
      case (Inl t)
      then show ?thesis
        using assms by (auto simp add: pdfUploadBody_def Some Pair hasUploadInProgress_def
            clearUploadInProgress_def)
    next
      case (Inr resp)
      then have "uploadInProgress st1 = None"
        using pdfUploadTry_success_clears Pair by simp
      then show ?thesis
        using assms by (auto simp add: pdfUploadBody_def Some Pair Inr hasUploadInProgress_def)
    qed
  qed
qed

lemma ingest_codes_handle: "ingest_codes st \<Longrightarrow> ingest_codes (handle limit st e)"
  by (cases e)
     (auto simp add: ingest_codes_def on_data_def on_end_def on_error_def settle_def Let_def
        ServiceError_def split: option.splits sum.splits)

lemma ingest_codes_foldl: "ingest_codes st \<Longrightarrow> ingest_codes (foldl (handle limit) st evs)"
  by (induction evs arbitrary: st) (simp_all add: ingest_codes_handle)

lemma ingest_error_codes:
  assumes "processMultipartUpload limit evs = Some (Inl e)"
  shows "code e = FILE_TOO_LARGE \<or> code e = VALIDATION_ERROR \<or> code e = UPLOAD_FAILED"
proof -
  have "ingest_codes (foldl (handle limit) ingest0 evs)"
    by (rule ingest_codes_foldl) (simp add: ingest_codes_def ingest0_def)
  then show ?thesis
    using assms by (simp add: processMultipartUpload_def ingest_codes_def)
qed

lemma pdfUploadTry_error_codes:
  assumes "pdfUploadTry st uploadId r req ev = (st', Inl t)"
    and "\<And>e. r = Inl e \<Longrightarrow> code e \<noteq> UPLOAD_IN_PROGRESS"
  shows "code (upload_catch t) \<noteq> UPLOAD_IN_PROGRESS"
proof (cases r)
  case (Inl e)
  then show ?thesis using assms by (auto simp add: pdfUploadTry_def upload_catch_def)
next
  case (Inr buf)
  show ?thesis
    using assms(1)
    by (cases "scan ev")
       (auto simp add: Inr pdfUploadTry_def Let_def scanForVirus_def PDFUploadStore_add_def
          addToIsolated_def upload_catch_def ServiceError_def split: if_splits)
qed

lemma pdfUploadBody_not_blocked:
  assumes "pdfUploadBody st uploadId req ev = (st', Some (Inl e))"
  shows "code e \<noteq> UPLOAD_IN_PROGRESS"
proof (cases "processMultipartUpload PDF_MAX_FILE_SIZE (events req)")
  case None
  then show ?thesis using assms by (simp add: pdfUploadBody_def)
next
  case (Some r)
  have codes: "\<And>e'. r = Inl e' \<Longrightarrow> code e' \<noteq> UPLOAD_IN_PROGRESS"
    using ingest_error_codes [of PDF_MAX_FILE_SIZE "events req"] Some by auto
  show ?thesis
  proof (cases "pdfUploadTry st uploadId r req ev")
    case (Pair st1 out)
    show ?thesis
    proof (cases out)
      case (Inl t)
      then have "code (upload_catch t) \<noteq> UPLOAD_IN_PROGRESS"
        using pdfUploadTry_error_codes [of st uploadId r req ev st1 t] Pair codes by simp
      then show ?thesis
        using assms by (auto simp add: pdfUploadBody_def Some Pair Inl)
    next
      case (Inr resp)
      then show ?thesis
        using assms by (simp add: pdfUploadBody_def Some Pair)
    qed
  qed
qed

lemma gate_roundtrip:
  "\<not> hasUploadInProgress st \<Longrightarrow>
   clearUploadInProgress ((setUploadInProgress u st)\<lparr>records := m\<rparr>) = st\<lparr>records := m\<rparr>"
  "\<not> hasUploadInProgress st \<Longrightarrow>
   clearUploadInProgress ((setUploadInProgress u st)\<lparr>isolatedRecords := m\<rparr>)
     = st\<lparr>isolatedRecords := m\<rparr>"
  by (cases st; simp add: hasUploadInProgress_def clearUploadInProgress_def setUploadInProgress_def)+

lemma setUploadInProgress_sel [simp]:
  "records (setUploadInProgress u st) = records st"
  "isolatedRecords (setUploadInProgress u st) = isolatedRecords st"
  "uploadInProgress (setUploadInProgress u st) = Some u"
  by (simp_all add: setUploadInProgress_def)

lemma pdfUploadProcess_clean:
  assumes "\<not> hasUploadInProgress st"
    and "processMultipartUpload PDF_MAX_FILE_SIZE (events req) = Some (Inr buf)"
    and "isPDFFile buf" and "valid (validatePDFStructure buf)"
    and "scan ev = Scan_settles" and "Map_size (records st) < MAX_RECORDS"
  shows "pdfUploadProcess st req ev =
           (st\<lparr>records := Map_set (uuid ev)
                   (newPDFUploadEntity (uuid ev) req ev buf Limpo) (records st)\<rparr>,
            Some (Inr (rest_without [''buffer'', ''status'']
                   (PDFUploadEntity_object (newPDFUploadEntity (uuid ev) req ev buf Limpo)))))"
proof -
  have "length buf \<le> PDF_MAX_FILE_SIZE" using assms(2) by (rule resolved_within_limit)
  then show ?thesis
    using assms
    by (simp add: pdfUploadProcess_def pdfUploadBegin_def pdfUploadBody_def pdfUploadTry_def
        Let_def scanForVirus_def PDFUploadStore_add_def gate_roundtrip)
qed

lemma pdfUploadProcess_quarantine:
  assumes "\<not> hasUploadInProgress st"
    and "processMultipartUpload PDF_MAX_FILE_SIZE (events req) = Some (Inr buf)"
    and "isPDFFile buf" and "valid (validatePDFStructure buf)"
    and "scan ev \<noteq> Scan_settles" and "Map_size (isolatedRecords st) < MAX_RECORDS"
  shows "pdfUploadProcess st req ev =
           (st\<lparr>isolatedRecords := Map_set (uuid ev)
                   (newPDFUploadEntity (uuid ev) req ev buf Erro_scan) (isolatedRecords st)\<rparr>,
            Some (Inr (rest_without [''buffer'', ''status'']
                   (PDFUploadEntity_object (newPDFUploadEntity (uuid ev) req ev buf Erro_scan)))))"
proof -
  have "length buf \<le> PDF_MAX_FILE_SIZE" using assms(2) by (rule resolved_within_limit)
  then show ?thesis
    using assms
    by (cases "scan ev")
       (simp_all add: pdfUploadProcess_def pdfUploadBegin_def pdfUploadBody_def pdfUploadTry_def
        Let_def scanForVirus_def addToIsolated_def gate_roundtrip)
qed

lemma pdf_min_ingested:
  "processMultipartUpload PDF_MAX_FILE_SIZE (events (request_of [pdf_min])) = Some (Inr pdf_min)"
  using ingest_end [of "[pdf_min]" PDF_MAX_FILE_SIZE "[]"]
  by (simp add: request_of_def pdf_min_def Buffer_from_def PDF_MAX_FILE_SIZE_def)

lemma store0_gate: "\<not> hasUploadInProgress pdfUploadStore0"
  by (simp add: hasUploadInProgress_def pdfUploadStore0_def)

lemma one_clean_eq:
  "pdfUploadProcess pdfUploadStore0 (request_of [pdf_min]) env0 =
     (\<lparr>records = [(uuid env0, newPDFUploadEntity (uuid env0) (request_of [pdf_min]) env0 pdf_min Limpo)],
       isolatedRecords = [], uploadInProgress = None\<rparr>,
      Some (Inr (rest_without [''buffer'', ''status'']
         (PDFUploadEntity_object (newPDFUploadEntity (uuid env0) (request_of [pdf_min]) env0 pdf_min Limpo)))))"
  using pdfUploadProcess_clean [OF store0_gate pdf_min_ingested pdf_min_signature, of env0]
  by (simp add: pdf_min_valid env0_def pdfUploadStore0_def Map_size_def MAX_RECORDS_def Map_set_def)

lemma clean_and_quarantined_eq:
  "t_clean_and_quarantined =
     \<lparr>records = [(uuid env0, newPDFUploadEntity (uuid env0) (request_of [pdf_min]) env0 pdf_min Limpo)],
      isolatedRecords = [(uuid env1, newPDFUploadEntity (uuid env1) (request_of [pdf_min]) env1 pdf_min Erro_scan)],
      uploadInProgress = None\<rparr>"
proof -
  have one: "t_one_clean = \<lparr>records = [(uuid env0, newPDFUploadEntity (uuid env0) (request_of [pdf_min]) env0 pdf_min Limpo)],
       isolatedRecords = [], uploadInProgress = None\<rparr>"
    by (simp add: t_one_clean_def one_clean_eq)
  have gate: "\<not> hasUploadInProgress t_one_clean"
    by (simp add: one hasUploadInProgress_def)
  show ?thesis
    unfolding t_clean_and_quarantined_def
    using pdfUploadProcess_quarantine [OF gate pdf_min_ingested pdf_min_signature, of env1]
    by (simp add: pdf_min_valid env1_def one Map_size_def MAX_RECORDS_def Map_set_def)
qed

lemma partitions_ok_values:
  assumes "partitions_ok st"
  shows "\<forall>e \<in> snd ` set (records st). stored_ok e \<and> scanResult e = Limpo"
    and "\<forall>e \<in> snd ` set (isolatedRecords st). stored_ok e \<and> scanResult e = Erro_scan"
  using assms unfolding partitions_ok_def list_all_iff set_map by (rule conjunct1, rule conjunct2)

text \<open>
  Claim C2.  In every store that uploads, gets and cancels can produce, each record of the
  isolated partition has the scan result \<open>erro_scan\<close> and no record of the primary
  partition has it.
\<close>

theorem quarantine_iff_scan_unavailable:
  assumes "reachable st"
  shows "(\<forall>e \<in> snd ` set (isolatedRecords st). scanResult e = Erro_scan)
       \<and> (\<forall>e \<in> snd ` set (records st). scanResult e \<noteq> Erro_scan)"
proof (intro conjI ballI)
  note ok = partitions_ok_values [OF reachable_partitions_ok [OF assms]]
  fix e assume "e \<in> snd ` set (isolatedRecords st)"
  with ok(2) have "stored_ok e \<and> scanResult e = Erro_scan" by (rule bspec)
  then show "scanResult e = Erro_scan" by (rule conjunct2)
next
  note ok = partitions_ok_values [OF reachable_partitions_ok [OF assms]]
  fix e assume "e \<in> snd ` set (records st)"
  with ok(1) have "stored_ok e \<and> scanResult e = Limpo" by (rule bspec)
  then have "scanResult e = Limpo" by (rule conjunct2)
  then show "scanResult e \<noteq> Erro_scan" by simp
qed

lemma reachable_clean_and_quarantined: "reachable t_clean_and_quarantined"
  unfolding t_clean_and_quarantined_def t_one_clean_def
  by (intro reachable_process r_init)

lemma clean_and_quarantined_records:
  "records t_clean_and_quarantined = [(uuid env0, clean_entity)]"
  "isolatedRecords t_clean_and_quarantined = [(uuid env1, quarantined_entity)]"
  by (simp_all add: clean_and_quarantined_eq clean_entity_def quarantined_entity_def)

theorem quarantine_iff_scan_unavailable_witness:
  "reachable t_clean_and_quarantined
   \<and> records t_clean_and_quarantined = [(uuid env0, clean_entity)]
   \<and> isolatedRecords t_clean_and_quarantined = [(uuid env1, quarantined_entity)]
   \<and> scanResult quarantined_entity = Erro_scan
   \<and> scanResult clean_entity \<noteq> Erro_scan"
proof -
  note T = quarantine_iff_scan_unavailable [OF reachable_clean_and_quarantined]
  have "quarantined_entity \<in> snd ` set (isolatedRecords t_clean_and_quarantined)"
    and "clean_entity \<in> snd ` set (records t_clean_and_quarantined)"
    by (simp_all add: clean_and_quarantined_records)
  then have "scanResult quarantined_entity = Erro_scan" "scanResult clean_entity \<noteq> Erro_scan"
    using T by blast+
  then show ?thesis
    using reachable_clean_and_quarantined clean_and_quarantined_records by (intro conjI)
qed

text \<open>
  Claim C10.  In every store that uploads, gets and cancels can produce, each record of
  either partition has \<open>integrityValid\<close> true, \<open>corruptionType\<close> null, the status
  \<open>concluido\<close> and the scan result \<open>limpo\<close> or \<open>erro_scan\<close>, and its buffer has the PDF
  signature and passes the structural validation.
\<close>

theorem stored_documents_as_constructed:
  assumes "reachable st"
  shows "\<forall>e \<in> snd ` set (records st) \<union> snd ` set (isolatedRecords st).
           integrityValid e \<and> corruptionType e = None \<and> status e = Concluido
           \<and> (scanResult e = Limpo \<or> scanResult e = Erro_scan)
           \<and> isPDFFile (buffer e) \<and> valid (validatePDFStructure (buffer e))"
proof
  note ok = partitions_ok_values [OF reachable_partitions_ok [OF assms]]
  fix e assume "e \<in> snd ` set (records st) \<union> snd ` set (isolatedRecords st)"
  then consider "e \<in> snd ` set (records st)" | "e \<in> snd ` set (isolatedRecords st)"
    by (rule UnE)
  then have "stored_ok e \<and> (scanResult e = Limpo \<or> scanResult e = Erro_scan)"
  proof cases
    case 1
    with ok(1) have "stored_ok e \<and> scanResult e = Limpo" by (rule bspec)
    then show ?thesis by (intro conjI disjI1) (erule conjunct1, erule conjunct2)
  next
    case 2
    with ok(2) have "stored_ok e \<and> scanResult e = Erro_scan" by (rule bspec)
    then show ?thesis by (intro conjI disjI2) (erule conjunct1, erule conjunct2)
  qed
  then show "integrityValid e \<and> corruptionType e = None \<and> status e = Concluido
           \<and> (scanResult e = Limpo \<or> scanResult e = Erro_scan)
           \<and> isPDFFile (buffer e) \<and> valid (validatePDFStructure (buffer e))"
    unfolding stored_ok_def by (elim conjE) (intro conjI; assumption)
qed

theorem stored_documents_as_constructed_witness:
  "reachable t_clean_and_quarantined
   \<and> records t_clean_and_quarantined = [(uuid env0, clean_entity)]
   \<and> isolatedRecords t_clean_and_quarantined = [(uuid env1, quarantined_entity)]
   \<and> integrityValid quarantined_entity \<and> corruptionType quarantined_entity = None
   \<and> status quarantined_entity = Concluido
   \<and> (scanResult quarantined_entity = Limpo \<or> scanResult quarantined_entity = Erro_scan)
   \<and> isPDFFile (buffer quarantined_entity)
   \<and> valid (validatePDFStructure (buffer quarantined_entity))"
proof -
  note T = stored_documents_as_constructed [OF reachable_clean_and_quarantined]
  have "quarantined_entity \<in> snd ` set (records t_clean_and_quarantined)
          \<union> snd ` set (isolatedRecords t_clean_and_quarantined)"
    by (simp add: clean_and_quarantined_records)
  with T have "integrityValid quarantined_entity \<and> corruptionType quarantined_entity = None
   \<and> status quarantined_entity = Concluido
   \<and> (scanResult quarantined_entity = Limpo \<or> scanResult quarantined_entity = Erro_scan)
   \<and> isPDFFile (buffer quarantined_entity)
   \<and> valid (validatePDFStructure (buffer quarantined_entity))"
    by (rule bspec)
  then show ?thesis
    using reachable_clean_and_quarantined clean_and_quarantined_records by (intro conjI) simp_all
qed

lemma pdfUploadProcess_busy:
  assumes "hasUploadInProgress st"
  shows "pdfUploadBegin st fresh = (st, Inl (ServiceError UPLOAD_IN_PROGRESS 409 NoDetails))"
    and "pdfUploadProcess st req ev = (st, Some (Inl (ServiceError UPLOAD_IN_PROGRESS 409 NoDetails)))"
  using assms by (simp_all add: pdfUploadProcess_def pdfUploadBegin_def)

lemma pdfUploadProcess_free:
  assumes "\<not> hasUploadInProgress st"
  shows "pdfUploadProcess st req ev = pdfUploadBody (setUploadInProgress (uuid ev) st) (uuid ev) req ev"
  using assms by (simp add: pdfUploadProcess_def pdfUploadBegin_def)

text \<open>
  Claim C3.  While the gate is set an upload fails with \<open>UPLOAD_IN_PROGRESS\<close> in the head
  of the operation, which does not take the request, and the store is unchanged.  Whenever
  an upload that set the gate returns, with a response or an error, the gate is clear, and
  the next upload passes the gate: it sets it again and cannot fail with
  \<open>UPLOAD_IN_PROGRESS\<close>.
\<close>

theorem single_upload_gate:
  "(hasUploadInProgress st \<longrightarrow>
      pdfUploadBegin st fresh = (st, Inl (ServiceError UPLOAD_IN_PROGRESS 409 NoDetails))
      \<and> pdfUploadProcess st req ev
          = (st, Some (Inl (ServiceError UPLOAD_IN_PROGRESS 409 NoDetails))))
   \<and> (pdfUploadBody st uploadId req ev = (st', Some res) \<longrightarrow> \<not> hasUploadInProgress st')
   \<and> (\<not> hasUploadInProgress st \<and> pdfUploadProcess st req ev = (st', Some res) \<longrightarrow>
        \<not> hasUploadInProgress st'
        \<and> pdfUploadBegin st' fresh = (setUploadInProgress fresh st', Inr fresh)
        \<and> (\<forall>req2 ev2 st2 e2. pdfUploadProcess st' req2 ev2 = (st2, Some (Inl e2))
              \<longrightarrow> code e2 \<noteq> UPLOAD_IN_PROGRESS))"
proof (intro conjI impI allI)
  assume "hasUploadInProgress st"
  then show "pdfUploadBegin st fresh = (st, Inl (ServiceError UPLOAD_IN_PROGRESS 409 NoDetails))"
    and "pdfUploadProcess st req ev = (st, Some (Inl (ServiceError UPLOAD_IN_PROGRESS 409 NoDetails)))"
    by (rule pdfUploadProcess_busy)+
next
  assume "pdfUploadBody st uploadId req ev = (st', Some res)"
  then show "\<not> hasUploadInProgress st'" by (rule pdfUploadBody_clears)
next
  assume a: "\<not> hasUploadInProgress st \<and> pdfUploadProcess st req ev = (st', Some res)"
  then have "pdfUploadBody (setUploadInProgress (uuid ev) st) (uuid ev) req ev = (st', Some res)"
    using pdfUploadProcess_free [of st req ev] by simp
  then show free: "\<not> hasUploadInProgress st'" by (rule pdfUploadBody_clears)
  then show "pdfUploadBegin st' fresh = (setUploadInProgress fresh st', Inr fresh)"
    by (simp add: pdfUploadBegin_def)
  fix req2 ev2 st2 e2
  assume "pdfUploadProcess st' req2 ev2 = (st2, Some (Inl e2))"
  then have "pdfUploadBody (setUploadInProgress (uuid ev2) st') (uuid ev2) req2 ev2
             = (st2, Some (Inl e2))"
    using pdfUploadProcess_free [OF free, of req2 ev2] by simp
  then show "code e2 \<noteq> UPLOAD_IN_PROGRESS" by (rule pdfUploadBody_not_blocked)
qed

lemma in_flight_gate: "hasUploadInProgress t_in_flight"
  by (simp add: t_in_flight_def pdfUploadBegin_def store0_gate hasUploadInProgress_def)

theorem single_upload_gate_witness:
  "hasUploadInProgress t_in_flight
   \<and> pdfUploadProcess t_in_flight (request_of [pdf_min]) env1
       = (t_in_flight, Some (Inl (ServiceError UPLOAD_IN_PROGRESS 409 NoDetails)))
   \<and> \<not> hasUploadInProgress pdfUploadStore0
   \<and> (\<exists>res. pdfUploadProcess pdfUploadStore0 (request_of [pdf_min]) env0 = (t_one_clean, Some res))
   \<and> \<not> hasUploadInProgress t_one_clean
   \<and> pdfUploadProcess t_one_clean (request_of [gif_header]) env1
       = (t_one_clean, Some (Inl (ServiceError INVALID_FILE_TYPE 400 NoDetails)))
   \<and> code (ServiceError INVALID_FILE_TYPE 400 NoDetails) \<noteq> UPLOAD_IN_PROGRESS"
proof -
  obtain res where run: "pdfUploadProcess pdfUploadStore0 (request_of [pdf_min]) env0 = (t_one_clean, Some res)"
    by (simp add: t_one_clean_def one_clean_eq)
  note G = single_upload_gate [where st = pdfUploadStore0 and req = "request_of [pdf_min]"
      and ev = env0 and st' = t_one_clean and res = res]
  have free: "\<not> hasUploadInProgress t_one_clean"
    using G store0_gate run by blast
  have second: "pdfUploadProcess t_one_clean (request_of [gif_header]) env1
       = (t_one_clean, Some (Inl (ServiceError INVALID_FILE_TYPE 400 NoDetails)))"
    using free gif_ingested_pdf gif_no_signature(2) by (rule pdfUpload_rejects_signature)
  have "code (ServiceError INVALID_FILE_TYPE 400 NoDetails) \<noteq> UPLOAD_IN_PROGRESS"
    using G store0_gate run second by blast
  moreover have "pdfUploadProcess t_in_flight (request_of [pdf_min]) env1
       = (t_in_flight, Some (Inl (ServiceError UPLOAD_IN_PROGRESS 409 NoDetails)))"
    using single_upload_gate [where st = t_in_flight] in_flight_gate by blast
  ultimately show ?thesis
    using in_flight_gate store0_gate run free second by blast
qed

section \<open>Failures of the ingestion\<close>

lemma fileUploadProcess_ingest_error:
  assumes "processMultipartUpload FILE_MAX_FILE_SIZE (events req) = Some (Inl e)"
  shows "fileUploadProcess fs req ev = (fs, Some (Inl e))"
  using assms by (simp add: fileUploadProcess_def fileUploadTry_def upload_catch_def)

lemma pdfUploadProcess_ingest_error:
  assumes "\<not> hasUploadInProgress ps"
    and "processMultipartUpload PDF_MAX_FILE_SIZE (events req) = Some (Inl e)"
  shows "pdfUploadProcess ps req ev = (ps, Some (Inl e))"
  using assms
  by (simp add: pdfUploadProcess_def pdfUploadBegin_def pdfUploadBody_def pdfUploadTry_def
      upload_catch_def store_gate_clear_id)

lemma no_bytes_no_chunks:
  assumes "\<forall>c \<in> set cs. c \<noteq> []" and "sum_list (map length cs) = 0"
  shows "cs = []"
  using assms by (cases cs) auto

text \<open>
  Claim C9.  At the data event that takes the running total over the limit (10 MiB for
  images, 50 MiB for documents) the upload fails with \<open>FILE_TOO_LARGE\<close>, whatever the
  stream does afterwards, and the store is unchanged.  A stream of non-empty chunks (the
  only ones a byte stream emits) that ends with no byte seen fails with \<open>VALIDATION_ERROR\<close>.
  A stream error during the ingestion fails with \<open>UPLOAD_FAILED\<close>, with the error as its
  details.
\<close>

theorem ingestion_failures:
  "(sum_list (map length cs) \<le> 10 * 1024 * 1024
      \<and> 10 * 1024 * 1024 < sum_list (map length cs) + length c
      \<and> events req = map Data cs @ Data c # rest
     \<longrightarrow> fileUploadProcess fs req ev
          = (fs, Some (Inl (ServiceError FILE_TOO_LARGE 413 NoDetails))))
   \<and> (\<not> hasUploadInProgress ps \<and> sum_list (map length cs) \<le> 50 * 1024 * 1024
      \<and> 50 * 1024 * 1024 < sum_list (map length cs) + length c
      \<and> events req = map Data cs @ Data c # rest
     \<longrightarrow> pdfUploadProcess ps req ev
          = (ps, Some (Inl (ServiceError FILE_TOO_LARGE 413 NoDetails))))
   \<and> ((\<forall>c \<in> set cs. c \<noteq> []) \<and> sum_list (map length cs) = 0
      \<and> events req = map Data cs @ End # rest
     \<longrightarrow> fileUploadProcess fs req ev
          = (fs, Some (Inl (ServiceError VALIDATION_ERROR 400 NoDetails))))
   \<and> (\<not> hasUploadInProgress ps \<and> (\<forall>c \<in> set cs. c \<noteq> []) \<and> sum_list (map length cs) = 0
      \<and> events req = map Data cs @ End # rest
     \<longrightarrow> pdfUploadProcess ps req ev
          = (ps, Some (Inl (ServiceError VALIDATION_ERROR 400 NoDetails))))
   \<and> (sum_list (map length cs) \<le> 10 * 1024 * 1024
      \<and> events req = map Data cs @ StreamError err # rest
     \<longrightarrow> fileUploadProcess fs req ev
          = (fs, Some (Inl (ServiceError UPLOAD_FAILED 500 (Cause err)))))
   \<and> (\<not> hasUploadInProgress ps \<and> sum_list (map length cs) \<le> 50 * 1024 * 1024
      \<and> events req = map Data cs @ StreamError err # rest
     \<longrightarrow> pdfUploadProcess ps req ev
          = (ps, Some (Inl (ServiceError UPLOAD_FAILED 500 (Cause err)))))"
proof (intro conjI impI)
  assume "sum_list (map length cs) \<le> 10 * 1024 * 1024
      \<and> 10 * 1024 * 1024 < sum_list (map length cs) + length c
      \<and> events req = map Data cs @ Data c # rest"
  then show "fileUploadProcess fs req ev
          = (fs, Some (Inl (ServiceError FILE_TOO_LARGE 413 NoDetails)))"
    using ingest_too_large [of cs FILE_MAX_FILE_SIZE c rest]
    by (intro fileUploadProcess_ingest_error) (simp add: FILE_MAX_FILE_SIZE_def)
next
  assume "\<not> hasUploadInProgress ps \<and> sum_list (map length cs) \<le> 50 * 1024 * 1024
      \<and> 50 * 1024 * 1024 < sum_list (map length cs) + length c
      \<and> events req = map Data cs @ Data c # rest"
  then show "pdfUploadProcess ps req ev
          = (ps, Some (Inl (ServiceError FILE_TOO_LARGE 413 NoDetails)))"
    using ingest_too_large [of cs PDF_MAX_FILE_SIZE c rest]
    by (intro pdfUploadProcess_ingest_error) (simp_all add: PDF_MAX_FILE_SIZE_def)
next
  assume a: "(\<forall>c \<in> set cs. c \<noteq> []) \<and> sum_list (map length cs) = 0
      \<and> events req = map Data cs @ End # rest"
  then have "cs = []" using no_bytes_no_chunks by blast
  with a show "fileUploadProcess fs req ev
          = (fs, Some (Inl (ServiceError VALIDATION_ERROR 400 NoDetails)))"
    using ingest_end [of "[]" FILE_MAX_FILE_SIZE rest]
    by (intro fileUploadProcess_ingest_error) simp
next
  assume a: "\<not> hasUploadInProgress ps \<and> (\<forall>c \<in> set cs. c \<noteq> []) \<and> sum_list (map length cs) = 0
      \<and> events req = map Data cs @ End # rest"
  then have "cs = []" using no_bytes_no_chunks by blast
  with a show "pdfUploadProcess ps req ev
          = (ps, Some (Inl (ServiceError VALIDATION_ERROR 400 NoDetails)))"
    using ingest_end [of "[]" PDF_MAX_FILE_SIZE rest]
    by (intro pdfUploadProcess_ingest_error) simp_all
next
  assume "sum_list (map length cs) \<le> 10 * 1024 * 1024
      \<and> events req = map Data cs @ StreamError err # rest"
  then show "fileUploadProcess fs req ev
          = (fs, Some (Inl (ServiceError UPLOAD_FAILED 500 (Cause err))))"
    using ingest_error [of cs FILE_MAX_FILE_SIZE err rest]
    by (intro fileUploadProcess_ingest_error) (simp add: FILE_MAX_FILE_SIZE_def)
next
  assume "\<not> hasUploadInProgress ps \<and> sum_list (map length cs) \<le> 50 * 1024 * 1024
      \<and> events req = map Data cs @ StreamError err # rest"
  then show "pdfUploadProcess ps req ev
          = (ps, Some (Inl (ServiceError UPLOAD_FAILED 500 (Cause err))))"
    using ingest_error [of cs PDF_MAX_FILE_SIZE err rest]
    by (intro pdfUploadProcess_ingest_error) (simp_all add: PDF_MAX_FILE_SIZE_def)
qed

lemma oversize_lengths:
  "length oversize_image = 10485761" "length oversize_document = 52428801"
  unfolding oversize_image_def oversize_document_def length_replicate by simp_all


theorem ingestion_failures_witness:
  "length oversize_image = 10485761
   \<and> fileUploadProcess fileUploadStore0 (stream_of [Data oversize_image]) env0
       = (fileUploadStore0, Some (Inl (ServiceError FILE_TOO_LARGE 413 NoDetails)))
   \<and> length oversize_document = 52428801
   \<and> pdfUploadProcess pdfUploadStore0 (stream_of [Data oversize_document]) env0
       = (pdfUploadStore0, Some (Inl (ServiceError FILE_TOO_LARGE 413 NoDetails)))
   \<and> fileUploadProcess fileUploadStore0 (stream_of [End]) env0
       = (fileUploadStore0, Some (Inl (ServiceError VALIDATION_ERROR 400 NoDetails)))
   \<and> pdfUploadProcess pdfUploadStore0 (stream_of [End]) env0
       = (pdfUploadStore0, Some (Inl (ServiceError VALIDATION_ERROR 400 NoDetails)))
   \<and> fileUploadProcess fileUploadStore0 (stream_of [Data gif_header, StreamError connection_reset]) env0
       = (fileUploadStore0, Some (Inl (ServiceError UPLOAD_FAILED 500 (Cause connection_reset))))
   \<and> pdfUploadProcess pdfUploadStore0 (stream_of [Data gif_header, StreamError connection_reset]) env0
       = (pdfUploadStore0, Some (Inl (ServiceError UPLOAD_FAILED 500 (Cause connection_reset))))"
proof -
  have gif: "length gif_header = 6" by (simp add: gif_header_def Buffer_from_def)
  have 1: "fileUploadProcess fileUploadStore0 (stream_of [Data oversize_image]) env0
       = (fileUploadStore0, Some (Inl (ServiceError FILE_TOO_LARGE 413 NoDetails)))"
    using ingestion_failures [where cs = "[]" and c = oversize_image and rest = "[]"
        and req = "stream_of [Data oversize_image]" and fs = fileUploadStore0 and ev = env0]
    by (simp add: oversize_lengths stream_of_def)
  have 2: "pdfUploadProcess pdfUploadStore0 (stream_of [Data oversize_document]) env0
       = (pdfUploadStore0, Some (Inl (ServiceError FILE_TOO_LARGE 413 NoDetails)))"
    using ingestion_failures [where cs = "[]" and c = oversize_document and rest = "[]"
        and req = "stream_of [Data oversize_document]" and ps = pdfUploadStore0 and ev = env0]
    by (simp add: oversize_lengths stream_of_def store0_gate)
  have 3: "fileUploadProcess fileUploadStore0 (stream_of [End]) env0
       = (fileUploadStore0, Some (Inl (ServiceError VALIDATION_ERROR 400 NoDetails)))"
    "pdfUploadProcess pdfUploadStore0 (stream_of [End]) env0
       = (pdfUploadStore0, Some (Inl (ServiceError VALIDATION_ERROR 400 NoDetails)))"
    using ingestion_failures [where cs = "[]" and rest = "[]" and req = "stream_of [End]"
        and fs = fileUploadStore0 and ps = pdfUploadStore0 and ev = env0]
    by (simp_all add: stream_of_def store0_gate)
  have 4: "fileUploadProcess fileUploadStore0 (stream_of [Data gif_header, StreamError connection_reset]) env0
       = (fileUploadStore0, Some (Inl (ServiceError UPLOAD_FAILED 500 (Cause connection_reset))))"
    "pdfUploadProcess pdfUploadStore0 (stream_of [Data gif_header, StreamError connection_reset]) env0
       = (pdfUploadStore0, Some (Inl (ServiceError UPLOAD_FAILED 500 (Cause connection_reset))))"
    using ingestion_failures [where cs = "[gif_header]" and rest = "[]" and err = connection_reset
        and req = "stream_of [Data gif_header, StreamError connection_reset]"
        and fs = fileUploadStore0 and ps = pdfUploadStore0 and ev = env0]
    by (simp_all add: stream_of_def store0_gate gif)
  show ?thesis using 1 2 3 4 oversize_lengths by (intro conjI)
qed

section \<open>The conversion\<close>

lemma length_toString_base64: "length (toString_base64 buf) = 4 * ((length buf + 2) div 3)"
proof (induction buf rule: toString_base64.induct)
  case (4 a b c rest)
  have "(length (a # b # c # rest) + 2) div 3 = Suc ((length rest + 2) div 3)" by simp
  then show ?case using 4 by simp
qed simp_all

lemma newFileUploadEntity_sel [simp]:
  "id' (newFileUploadEntity req ev buf w h) = uuid ev"
  "buffer (newFileUploadEntity req ev buf w h) = buf"
  "fileSize (newFileUploadEntity req ev buf w h) = length buf"
  "mimeType (newFileUploadEntity req ev buf w h) = ''image/png''"
  by (simp_all add: newFileUploadEntity_def)

lemma fileUploadProcess_accepts:
  assumes "processMultipartUpload FILE_MAX_FILE_SIZE (events req) = Some (Inr buf)"
    and "isPNGFile buf" and "extractPNGDimensions buf = Inr (w, h)"
    and "Map_size (file_records fs) < MAX_RECORDS"
  shows "fileUploadProcess fs req ev =
           (fs\<lparr>file_records := Map_set (uuid ev) (newFileUploadEntity req ev buf w h) (file_records fs)\<rparr>,
            Some (Inr (rest_without [''buffer'']
                   (FileUploadEntity_object (newFileUploadEntity req ev buf w h)))))"
proof -
  have "length buf \<le> FILE_MAX_FILE_SIZE" using assms(1) by (rule resolved_within_limit)
  then show ?thesis
    using assms
    by (simp add: fileUploadProcess_def fileUploadTry_def Let_def FileUploadStore_add_def)
qed


lemma extractPNGMetadata_long:
  assumes "26 \<le> length buf"
  shows "\<exists>md. extractPNGMetadata buf = Inr md"
  using assms
  by (simp add: extractPNGMetadata_def readUInt32BE_def readUInt8_def Let_def)



lemma png_1x1_ingested:
  "processMultipartUpload FILE_MAX_FILE_SIZE (events (request_of [png_1x1])) = Some (Inr png_1x1)"
  using ingest_end [of "[png_1x1]" FILE_MAX_FILE_SIZE "[]"]
  by (simp add: request_of_def png_1x1_def FILE_MAX_FILE_SIZE_def)


lemma png_1x1_facts:
  "isPNGFile png_1x1" "extractPNGDimensions png_1x1 = Inr (1, 1)" "length png_1x1 = 67"
  by (simp_all add: isPNGFile_iff png_1x1_def extractPNGDimensions_def readUInt32BE_def)

lemma store0_size: "Map_size (file_records fileUploadStore0) < MAX_RECORDS"
  by (simp add: fileUploadStore0_def Map_size_def MAX_RECORDS_def)


lemma t_one_png_eq:
  "t_one_png = \<lparr>file_records =
      [(uuid env0, newFileUploadEntity (request_of [png_1x1]) env0 png_1x1 1 1)]\<rparr>"
  unfolding t_one_png_def
  using fileUploadProcess_accepts [OF png_1x1_ingested png_1x1_facts(1,2) store0_size, of env0]
  by (simp add: fileUploadStore0_def Map_set_def)




subsection \<open>The size check of the conversion\<close>

lemma base64_padding_excess:
  "abs_diff (p + 4 * ((n + 2) div 3)) ((n * 4 + 2) div 3 + p) = (3 - n mod 3) mod 3"
proof -
  define k r where "k = n div 3" and "r = n mod 3"
  have n: "n = 3 * k + r" and r: "r < 3" by (simp_all add: k_def r_def)
  have "n + 2 = 3 * k + (r + 2)" and "n * 4 + 2 = 3 * (4 * k) + (4 * r + 2)"
    by (simp_all add: n)
  then have A: "(n + 2) div 3 = k + (r + 2) div 3"
    and B: "(n * 4 + 2) div 3 = 4 * k + (4 * r + 2) div 3"
    by (simp_all only: div_mult_self4 [of 3, simplified])
  have "r = 0 \<or> r = 1 \<or> r = 2" using r by linarith
  then show ?thesis
    unfolding A B r_def [symmetric] abs_diff_def by (elim disjE) simp_all
qed

lemma integrity_with_prefix:
  "validateConversionIntegrity (p + 4 * ((n + 2) div 3)) ((n * 4 + 2) div 3 + p)
   \<longleftrightarrow> 100 * ((3 - n mod 3) mod 3) \<le> (n * 4 + 2) div 3 + p"
  unfolding validateConversionIntegrity_def Let_def base64_padding_excess ..

lemma integrity_holds_from_133:
  assumes "133 \<le> n" and "22 \<le> p"
  shows "validateConversionIntegrity (p + 4 * ((n + 2) div 3)) ((n * 4 + 2) div 3 + p)"
proof -
  have "(3 - n mod 3) mod 3 \<le> 2" by simp
  moreover have "534 \<le> n * 4 + 2" using assms(1) by simp
  then have "534 div 3 \<le> (n * 4 + 2) div 3" by (rule div_le_mono)
  ultimately show ?thesis unfolding integrity_with_prefix using assms(2) by simp
qed

text \<open>
  Claim C1.  The expected size is \<open>ceil(S * 4 / 3) + P\<close>.  The base64 text of \<open>S\<close> bytes has
  \<open>4 * ceil(S / 3)\<close> characters, which is up to two more, and for a small image two
  characters are more than one percent: the 67-byte PNG of one pixel, uploaded and stored,
  has an expected size of 112 and a data URL of 114 characters, and its conversion fails
  with \<open>INTEGRITY_ERROR\<close>.
\<close>

theorem conversion_rejects_one_pixel_png:
  "isPNGFile png_1x1 \<and> length png_1x1 = 67
   \<and> fileUploadProcess fileUploadStore0 (request_of [png_1x1]) env0
       = (t_one_png, Some (Inr (rest_without [''buffer'']
            (FileUploadEntity_object (newFileUploadEntity (request_of [png_1x1]) env0 png_1x1 1 1)))))
   \<and> map (buffer \<circ> snd) (file_records t_one_png) = [png_1x1]
   \<and> calculateExpectedBase64Size 67 ''data:image/png;base64,'' = 112
   \<and> length (''data:image/png;base64,'' @ toString_base64 png_1x1) = 114
   \<and> pngConversionProcess t_one_png (ParseSuccess (uuid env0)) (now_iso env1)
       = Inl (ServiceError INTEGRITY_ERROR 500 (IntegritySizes 112 114 2))"
proof -
  have run: "fileUploadProcess fileUploadStore0 (request_of [png_1x1]) env0
       = (t_one_png, Some (Inr (rest_without [''buffer'']
            (FileUploadEntity_object (newFileUploadEntity (request_of [png_1x1]) env0 png_1x1 1 1)))))"
    using fileUploadProcess_accepts [OF png_1x1_ingested png_1x1_facts(1,2) store0_size, of env0]
    by (simp add: t_one_png_eq fileUploadStore0_def Map_set_def)
  obtain md where md: "extractPNGMetadata png_1x1 = Inr md"
    using extractPNGMetadata_long [of png_1x1] by (auto simp add: png_1x1_facts)
  have len: "length (''data:image/png;base64,'' @ toString_base64 png_1x1) = 114"
    by (simp add: length_toString_base64 png_1x1_facts)
  have exp: "calculateExpectedBase64Size 67 ''data:image/png;base64,'' = 112"
    by (simp add: calculateExpectedBase64Size_def)
  have conv: "pngConversionProcess t_one_png (ParseSuccess (uuid env0)) (now_iso env1)
       = Inl (ServiceError INTEGRITY_ERROR 500 (IntegritySizes 112 114 2))"
    using len
    by (simp add: pngConversionProcess_def pngConversionProcess_with_def pngConversionTry_def
        t_one_png_eq FileUploadStore_getById_def Map_get_def md convertToBase64_def Let_def
        png_1x1_facts exp validateConversionIntegrity_def abs_diff_def conversion_catch_def)
  show ?thesis using run len exp conv png_1x1_facts by (simp add: t_one_png_eq)
qed

section \<open>Responses\<close>

lemma FileUploadEntity_response:
  "rest_without [''buffer''] (FileUploadEntity_object e) =
     [(''id'', JString (id' e)), (''fileName'', JString (fileName e)),
      (''fileSize'', JNumber (fileSize e)),
      (''fileSizeFormatted'', JString (fileSizeFormatted e)),
      (''width'', JNumber (width e)), (''height'', JNumber (height e)),
      (''dimensions'', JString (dimensions e)), (''previewUrl'', JString (previewUrl e)),
      (''mimeType'', JString (mimeType e)), (''uploadedAt'', JString (uploadedAt e))]"
  by (simp add: rest_without_def FileUploadEntity_object_def)

lemma PDFUploadEntity_response:
  "rest_without [''buffer'', ''status''] (PDFUploadEntity_object e) =
     [(''id'', JString (id' e)), (''fileName'', JString (fileName e)),
      (''fileSize'', JNumber (fileSize e)),
      (''fileSizeFormatted'', JString (fileSizeFormatted e)),
      (''mimeType'', JString (mimeType e)), (''uploadedAt'', JString (uploadedAt e)),
      (''integrityValid'', JBoolean (integrityValid e)),
      (''corruptionType'',
         (case corruptionType e of None \<Rightarrow> JNull
          | Some t \<Rightarrow> JString (corruption_type_text t))),
      (''scanResult'', JString (scan_result_text (scanResult e))),
      (''token'', JString (token e))]"
  by (simp add: rest_without_def PDFUploadEntity_object_def)

lemma fileUploadTry_response:
  assumes "fileUploadTry fs r req ev = (fs', Inr resp)"
  shows "\<exists>buf w h. r = Inr buf
           \<and> FileUploadStore_getById fs' (uuid ev) = Some (newFileUploadEntity req ev buf w h)
           \<and> resp = rest_without [''buffer''] (FileUploadEntity_object (newFileUploadEntity req ev buf w h))"
proof (cases r)
  case (Inl e)
  then show ?thesis using assms by (simp add: fileUploadTry_def)
next
  case (Inr buf)
  show ?thesis
    using assms
    apply (auto simp add: Inr fileUploadTry_def Let_def FileUploadStore_add_def
        FileUploadStore_getById_def Map_get_set split: if_splits sum.splits prod.splits)
    apply blast
    done
qed

lemma fileUploadProcess_response:
  assumes "fileUploadProcess fs req ev = (fs', Some (Inr resp))"
  shows "\<exists>buf w h. processMultipartUpload FILE_MAX_FILE_SIZE (events req) = Some (Inr buf)
           \<and> FileUploadStore_getById fs' (uuid ev) = Some (newFileUploadEntity req ev buf w h)
           \<and> resp = rest_without [''buffer''] (FileUploadEntity_object (newFileUploadEntity req ev buf w h))"
proof (cases "processMultipartUpload FILE_MAX_FILE_SIZE (events req)")
  case None
  then show ?thesis using assms by (simp add: fileUploadProcess_def)
next
  case (Some r)
  obtain st out where t: "fileUploadTry fs r req ev = (st, out)" by (cases "fileUploadTry fs r req ev")
  show ?thesis
  proof (cases out)
    case (Inl t')
    then show ?thesis using assms t by (simp add: fileUploadProcess_def Some)
  next
    case (Inr resp')
    then have "fileUploadTry fs r req ev = (fs', Inr resp)"
      using assms t by (simp add: fileUploadProcess_def Some)
    then show ?thesis using fileUploadTry_response [of fs r req ev fs' resp] Some by auto
  qed
qed


lemma pdfUploadTry_response:
  assumes "pdfUploadTry ps uploadId r req ev = (ps', Inr resp)"
  shows "\<exists>buf sr. r = Inr buf
           \<and> (Map_get (records ps') uploadId = Some (newPDFUploadEntity uploadId req ev buf sr)
              \<or> Map_get (isolatedRecords ps') uploadId
                   = Some (newPDFUploadEntity uploadId req ev buf sr))
           \<and> resp = rest_without [''buffer'', ''status'']
                       (PDFUploadEntity_object (newPDFUploadEntity uploadId req ev buf sr))"
proof (cases r)
  case (Inl e)
  then show ?thesis using assms by (simp add: pdfUploadTry_def)
next
  case (Inr buf)
  show ?thesis
    using assms
    by (cases "scan ev")
       (auto simp add: Inr pdfUploadTry_def Let_def scanForVirus_def PDFUploadStore_add_def
        addToIsolated_def clearUploadInProgress_def Map_get_set split: if_splits)
qed

lemma pdfUploadBody_response:
  assumes "pdfUploadBody ps uploadId req ev = (ps', Some (Inr resp))"
  shows "\<exists>buf sr. processMultipartUpload PDF_MAX_FILE_SIZE (events req) = Some (Inr buf)
           \<and> (Map_get (records ps') uploadId = Some (newPDFUploadEntity uploadId req ev buf sr)
              \<or> Map_get (isolatedRecords ps') uploadId
                   = Some (newPDFUploadEntity uploadId req ev buf sr))
           \<and> resp = rest_without [''buffer'', ''status'']
                       (PDFUploadEntity_object (newPDFUploadEntity uploadId req ev buf sr))"
proof (cases "processMultipartUpload PDF_MAX_FILE_SIZE (events req)")
  case None
  then show ?thesis using assms by (simp add: pdfUploadBody_def)
next
  case (Some r)
  obtain st out where t: "pdfUploadTry ps uploadId r req ev = (st, out)"
    by (cases "pdfUploadTry ps uploadId r req ev")
  show ?thesis
  proof (cases out)
    case (Inl t')
    then show ?thesis using assms t by (simp add: pdfUploadBody_def Some)
  next
    case (Inr resp')
    then have "pdfUploadTry ps uploadId r req ev = (ps', Inr resp)"
      using assms t by (simp add: pdfUploadBody_def Some)
    then show ?thesis using pdfUploadTry_response [of ps uploadId r req ev ps' resp] Some by auto
  qed
qed

lemma pdfUploadProcess_response:
  assumes "pdfUploadProcess ps req ev = (ps', Some (Inr resp))"
  shows "\<exists>buf sr. processMultipartUpload PDF_MAX_FILE_SIZE (events req) = Some (Inr buf)
           \<and> (Map_get (records ps') (uuid ev) = Some (newPDFUploadEntity (uuid ev) req ev buf sr)
              \<or> Map_get (isolatedRecords ps') (uuid ev)
                   = Some (newPDFUploadEntity (uuid ev) req ev buf sr))
           \<and> resp = rest_without [''buffer'', ''status'']
                       (PDFUploadEntity_object (newPDFUploadEntity (uuid ev) req ev buf sr))"
proof (cases "hasUploadInProgress ps")
  case True
  then show ?thesis using assms pdfUploadProcess_busy(2) [OF True, of req ev] by simp
next
  case False
  then show ?thesis
    using assms pdfUploadProcess_free [OF False, of req ev]
      pdfUploadBody_response [of "setUploadInProgress (uuid ev) ps" "uuid ev" req ev ps' resp]
    by simp
qed

lemma newFileUploadEntity_response:
  "rest_without [''buffer''] (FileUploadEntity_object (newFileUploadEntity req ev buf w h)) =
     [(''id'', JString (uuid ev)),
      (''fileName'', JString (header_fileName req ''upload.png'')),
      (''fileSize'', JNumber (length buf)),
      (''fileSizeFormatted'', JString (formatFileSize (length buf))),
      (''width'', JNumber w), (''height'', JNumber h),
      (''dimensions'', JString (show_nat w @ '' x '' @ show_nat h)),
      (''previewUrl'', JString (''data:image/png;base64,'' @ toString_base64 buf)),
      (''mimeType'', JString ''image/png''),
      (''uploadedAt'', JString (now_iso ev))]"
  unfolding FileUploadEntity_response
  by (simp add: newFileUploadEntity_def generatePreviewUrl_def)

lemma fileUploadGet_response:
  assumes "fileUploadGet fs params = Inr resp"
  shows "\<exists>i e. params = ParseSuccess i \<and> FileUploadStore_getById fs i = Some e
           \<and> resp = rest_without [''buffer''] (FileUploadEntity_object e)"
  using assms by (auto simp add: fileUploadGet_def split: parsed.splits option.splits)

lemma pdfUploadGet_response:
  assumes "pdfUploadGet ps params = Inr resp"
  shows "\<exists>i e. params = ParseSuccess i \<and> PDFUploadStore_getById ps i = Some e
           \<and> resp = rest_without [''buffer'', ''status''] (PDFUploadEntity_object e)"
  using assms by (auto simp add: pdfUploadGet_def split: parsed.splits option.splits)

lemma exists_iff_getById:
  "FileUploadStore_exists fs i \<longleftrightarrow> FileUploadStore_getById fs i \<noteq> None"
  "PDFUploadStore_exists ps i \<longleftrightarrow> PDFUploadStore_getById ps i \<noteq> None"
  by (auto simp add: FileUploadStore_exists_def FileUploadStore_getById_def
      PDFUploadStore_exists_def PDFUploadStore_getById_def Map_has_def Map_get_def
      split: option.splits)

lemma fileUploadCancel_removes:
  assumes "fileUploadCancel fs (ParseSuccess i) = (fs', Inr m)"
  shows "FileUploadStore_getById fs' i = None"
  using assms
  by (auto simp add: fileUploadCancel_def FileUploadStore_delete_fst Map_delete_def
      FileUploadStore_getById_def Map_get_def delete_conv' split: if_splits)

lemma rest_without_buffer_key:
  "''buffer'' \<notin> fst ` set (rest_without (''buffer'' # ks) obj)"
  by (auto simp add: rest_without_def)

lemma FileUploadEntity_response_values:
  "(k, JBuffer b) \<notin> set (rest_without [''buffer''] (FileUploadEntity_object e))"
  unfolding FileUploadEntity_response by simp

lemma PDFUploadEntity_response_values:
  "(k, JBuffer b) \<notin> set (rest_without [''buffer'', ''status''] (PDFUploadEntity_object e))"
  unfolding PDFUploadEntity_response by (simp split: option.splits)

lemma PDFUploadStore_exists_iff:
  "PDFUploadStore_exists ps i \<longleftrightarrow>
     (\<exists>e. Map_get (records ps) i = Some e \<or> Map_get (isolatedRecords ps) i = Some e)"
  by (auto simp add: PDFUploadStore_exists_def Map_has_def Map_get_def split: option.splits)

lemma fileUploadGet_answers:
  "(\<exists>r. fileUploadGet fs (ParseSuccess i) = Inr r) \<longleftrightarrow> FileUploadStore_exists fs i"
  by (auto simp add: fileUploadGet_def exists_iff_getById split: option.splits)

lemma pdfUploadGet_answers:
  "(\<exists>r. pdfUploadGet ps (ParseSuccess i) = Inr r) \<longleftrightarrow> PDFUploadStore_exists ps i"
  by (auto simp add: pdfUploadGet_def exists_iff_getById split: option.splits)


text \<open>
  Claim C8.  The response of an upload or of a get is the object of a record that a
  partition of the store holds, without its \<open>buffer\<close> property (for documents, also
  without \<open>status\<close>): it has no property \<open>buffer\<close> and no property whose value is a
  \<open>Buffer\<close>.  The bytes themselves are the \<open>buffer\<close> of the record in the store: after an
  upload they are the bytes that were ingested, a record with its buffer is found exactly
  when \<open>exists\<close> holds, a get answers exactly then, and after the cancel of an image there
  is none.
\<close>

theorem responses_and_raw_bytes:
  "(fileUploadProcess fs req ev = (fs', Some (Inr resp)) \<longrightarrow>
      (\<exists>buf e. processMultipartUpload FILE_MAX_FILE_SIZE (events req) = Some (Inr buf)
         \<and> FileUploadStore_getById fs' (uuid ev) = Some e \<and> buffer e = buf
         \<and> FileUploadStore_exists fs' (uuid ev)
         \<and> resp = rest_without [''buffer''] (FileUploadEntity_object e))
      \<and> ''buffer'' \<notin> fst ` set resp \<and> (\<forall>k b. (k, JBuffer b) \<notin> set resp))
   \<and> (fileUploadGet fs params = Inr resp \<longrightarrow>
      (\<exists>i e. params = ParseSuccess i \<and> FileUploadStore_getById fs i = Some e
         \<and> FileUploadStore_exists fs i
         \<and> resp = rest_without [''buffer''] (FileUploadEntity_object e))
      \<and> ''buffer'' \<notin> fst ` set resp \<and> (\<forall>k b. (k, JBuffer b) \<notin> set resp))
   \<and> (pdfUploadProcess ps req ev = (ps', Some (Inr presp)) \<longrightarrow>
      (\<exists>buf e. processMultipartUpload PDF_MAX_FILE_SIZE (events req) = Some (Inr buf)
         \<and> (Map_get (records ps') (uuid ev) = Some e
            \<or> Map_get (isolatedRecords ps') (uuid ev) = Some e)
         \<and> buffer e = buf
         \<and> PDFUploadStore_exists ps' (uuid ev)
         \<and> presp = rest_without [''buffer'', ''status''] (PDFUploadEntity_object e))
      \<and> ''buffer'' \<notin> fst ` set presp \<and> (\<forall>k b. (k, JBuffer b) \<notin> set presp))
   \<and> (pdfUploadGet ps params = Inr presp \<longrightarrow>
      (\<exists>i e. params = ParseSuccess i \<and> PDFUploadStore_getById ps i = Some e
         \<and> PDFUploadStore_exists ps i
         \<and> presp = rest_without [''buffer'', ''status''] (PDFUploadEntity_object e))
      \<and> ''buffer'' \<notin> fst ` set presp \<and> (\<forall>k b. (k, JBuffer b) \<notin> set presp))
   \<and> (FileUploadStore_exists fs i \<longleftrightarrow> (\<exists>e. FileUploadStore_getById fs i = Some e))
   \<and> (PDFUploadStore_exists ps i \<longleftrightarrow>
        (\<exists>e. Map_get (records ps) i = Some e \<or> Map_get (isolatedRecords ps) i = Some e))
   \<and> (PDFUploadStore_exists ps i \<longleftrightarrow> (\<exists>e. PDFUploadStore_getById ps i = Some e))
   \<and> ((\<exists>r. fileUploadGet fs (ParseSuccess i) = Inr r) \<longleftrightarrow> FileUploadStore_exists fs i)
   \<and> ((\<exists>r. pdfUploadGet ps (ParseSuccess i) = Inr r) \<longleftrightarrow> PDFUploadStore_exists ps i)
   \<and> (fileUploadCancel fs (ParseSuccess i) = (fs', Inr m) \<longrightarrow>
        \<not> FileUploadStore_exists fs' i \<and> FileUploadStore_getById fs' i = None)"
proof (intro conjI impI)
  assume a: "fileUploadProcess fs req ev = (fs', Some (Inr resp))"
  then obtain buf w h where b:
    "processMultipartUpload FILE_MAX_FILE_SIZE (events req) = Some (Inr buf)"
    "FileUploadStore_getById fs' (uuid ev) = Some (newFileUploadEntity req ev buf w h)"
    "resp = rest_without [''buffer''] (FileUploadEntity_object (newFileUploadEntity req ev buf w h))"
    using fileUploadProcess_response by blast
  have "FileUploadStore_exists fs' (uuid ev)"
    using b(2) by (simp add: exists_iff_getById)
  then show "\<exists>buf e. processMultipartUpload FILE_MAX_FILE_SIZE (events req) = Some (Inr buf)
         \<and> FileUploadStore_getById fs' (uuid ev) = Some e \<and> buffer e = buf
         \<and> FileUploadStore_exists fs' (uuid ev)
         \<and> resp = rest_without [''buffer''] (FileUploadEntity_object e)"
    using b by (intro exI [of _ buf] exI [of _ "newFileUploadEntity req ev buf w h"]) simp
  show "''buffer'' \<notin> fst ` set resp"
    unfolding b(3) by (rule rest_without_buffer_key)
  show "\<forall>k b. (k, JBuffer b) \<notin> set resp"
    unfolding b(3) by (intro allI) (rule FileUploadEntity_response_values)
next
  assume "fileUploadGet fs params = Inr resp"
  then obtain i e where g: "params = ParseSuccess i" "FileUploadStore_getById fs i = Some e"
    "resp = rest_without [''buffer''] (FileUploadEntity_object e)"
    using fileUploadGet_response by blast
  have "FileUploadStore_exists fs i"
    using g(2) by (simp add: exists_iff_getById)
  then show "\<exists>i e. params = ParseSuccess i \<and> FileUploadStore_getById fs i = Some e
         \<and> FileUploadStore_exists fs i
         \<and> resp = rest_without [''buffer''] (FileUploadEntity_object e)"
    using g by blast
  show "''buffer'' \<notin> fst ` set resp"
    unfolding g(3) by (rule rest_without_buffer_key)
  show "\<forall>k b. (k, JBuffer b) \<notin> set resp"
    unfolding g(3) by (intro allI) (rule FileUploadEntity_response_values)
next
  assume "pdfUploadProcess ps req ev = (ps', Some (Inr presp))"
  then obtain buf sr where b:
    "processMultipartUpload PDF_MAX_FILE_SIZE (events req) = Some (Inr buf)"
    "Map_get (records ps') (uuid ev) = Some (newPDFUploadEntity (uuid ev) req ev buf sr)
     \<or> Map_get (isolatedRecords ps') (uuid ev) = Some (newPDFUploadEntity (uuid ev) req ev buf sr)"
    "presp = rest_without [''buffer'', ''status'']
               (PDFUploadEntity_object (newPDFUploadEntity (uuid ev) req ev buf sr))"
    using pdfUploadProcess_response by blast
  have "PDFUploadStore_exists ps' (uuid ev)"
    using b(2) unfolding PDFUploadStore_exists_iff by blast
  then show "\<exists>buf e. processMultipartUpload PDF_MAX_FILE_SIZE (events req) = Some (Inr buf)
         \<and> (Map_get (records ps') (uuid ev) = Some e
            \<or> Map_get (isolatedRecords ps') (uuid ev) = Some e)
         \<and> buffer e = buf
         \<and> PDFUploadStore_exists ps' (uuid ev)
         \<and> presp = rest_without [''buffer'', ''status''] (PDFUploadEntity_object e)"
    using b
    by (intro exI [of _ buf] exI [of _ "newPDFUploadEntity (uuid ev) req ev buf sr"]) simp
  show "''buffer'' \<notin> fst ` set presp"
    unfolding b(3) by (rule rest_without_buffer_key)
  show "\<forall>k b. (k, JBuffer b) \<notin> set presp"
    unfolding b(3) by (intro allI) (rule PDFUploadEntity_response_values)
next
  assume "pdfUploadGet ps params = Inr presp"
  then obtain i e where g: "params = ParseSuccess i" "PDFUploadStore_getById ps i = Some e"
    "presp = rest_without [''buffer'', ''status''] (PDFUploadEntity_object e)"
    using pdfUploadGet_response by blast
  have "PDFUploadStore_exists ps i"
    using g(2) by (simp add: exists_iff_getById)
  then show "\<exists>i e. params = ParseSuccess i \<and> PDFUploadStore_getById ps i = Some e
         \<and> PDFUploadStore_exists ps i
         \<and> presp = rest_without [''buffer'', ''status''] (PDFUploadEntity_object e)"
    using g by blast
  show "''buffer'' \<notin> fst ` set presp"
    unfolding g(3) by (rule rest_without_buffer_key)
  show "\<forall>k b. (k, JBuffer b) \<notin> set presp"
    unfolding g(3) by (intro allI) (rule PDFUploadEntity_response_values)
next
  show "FileUploadStore_exists fs i \<longleftrightarrow> (\<exists>e. FileUploadStore_getById fs i = Some e)"
    by (simp add: exists_iff_getById)
  show "PDFUploadStore_exists ps i \<longleftrightarrow>
        (\<exists>e. Map_get (records ps) i = Some e \<or> Map_get (isolatedRecords ps) i = Some e)"
    by (rule PDFUploadStore_exists_iff)
  show "PDFUploadStore_exists ps i \<longleftrightarrow> (\<exists>e. PDFUploadStore_getById ps i = Some e)"
    by (simp add: exists_iff_getById)
  show "(\<exists>r. fileUploadGet fs (ParseSuccess i) = Inr r) \<longleftrightarrow> FileUploadStore_exists fs i"
    by (rule fileUploadGet_answers)
  show "(\<exists>r. pdfUploadGet ps (ParseSuccess i) = Inr r) \<longleftrightarrow> PDFUploadStore_exists ps i"
    by (rule pdfUploadGet_answers)
next
  assume c: "fileUploadCancel fs (ParseSuccess i) = (fs', Inr m)"
  then show "FileUploadStore_getById fs' i = None" by (rule fileUploadCancel_removes)
  then show "\<not> FileUploadStore_exists fs' i" by (simp add: exists_iff_getById)
qed

lemma png_upload_run:
  "fileUploadProcess fileUploadStore0 (request_of [png_1x1]) env0
     = (t_one_png, Some (Inr png_response))"
  using fileUploadProcess_accepts [OF png_1x1_ingested png_1x1_facts(1,2) store0_size, of env0]
  by (simp add: t_one_png_eq fileUploadStore0_def Map_set_def png_response_def)

lemma pdf_upload_run:
  "pdfUploadProcess pdfUploadStore0 (request_of [pdf_min]) env0 = (t_one_clean, Some (Inr pdf_response))"
  by (simp add: t_one_clean_def one_clean_eq pdf_response_def clean_entity_def)

lemma png_get_run:
  "fileUploadGet t_one_png (ParseSuccess (uuid env0)) = Inr png_response"
  by (simp add: fileUploadGet_def t_one_png_eq FileUploadStore_getById_def Map_get_def
      png_response_def)

lemma pdf_get_run:
  "pdfUploadGet t_one_clean (ParseSuccess (uuid env0)) = Inr pdf_response"
  by (simp add: pdfUploadGet_def t_one_clean_def one_clean_eq PDFUploadStore_getById_def
      Map_get_def pdf_response_def clean_entity_def)

lemma png_cancel_run:
  "fileUploadCancel t_one_png (ParseSuccess (uuid env0))
     = (fileUploadStore0, Inr ''File deleted successfully'')"
  by (simp add: fileUploadCancel_def t_one_png_eq FileUploadStore_exists_def Map_has_def
      FileUploadStore_delete_fst Map_delete_def fileUploadStore0_def)

theorem responses_and_raw_bytes_witness:
  "fileUploadProcess fileUploadStore0 (request_of [png_1x1]) env0
     = (t_one_png, Some (Inr png_response))
   \<and> (\<exists>e. FileUploadStore_getById t_one_png (uuid env0) = Some e \<and> buffer e = png_1x1
         \<and> png_response = rest_without [''buffer''] (FileUploadEntity_object e))
   \<and> FileUploadStore_exists t_one_png (uuid env0)
   \<and> ''buffer'' \<notin> fst ` set png_response
   \<and> (\<forall>k b. (k, JBuffer b) \<notin> set png_response)
   \<and> fileUploadGet t_one_png (ParseSuccess (uuid env0)) = Inr png_response
   \<and> pdfUploadProcess pdfUploadStore0 (request_of [pdf_min]) env0
       = (t_one_clean, Some (Inr pdf_response))
   \<and> (\<exists>e. Map_get (records t_one_clean) (uuid env0) = Some e \<and> buffer e = pdf_min
         \<and> pdf_response = rest_without [''buffer'', ''status''] (PDFUploadEntity_object e))
   \<and> PDFUploadStore_exists t_one_clean (uuid env0)
   \<and> ''buffer'' \<notin> fst ` set pdf_response
   \<and> (\<forall>k b. (k, JBuffer b) \<notin> set pdf_response)
   \<and> pdfUploadGet t_one_clean (ParseSuccess (uuid env0)) = Inr pdf_response
   \<and> fileUploadCancel t_one_png (ParseSuccess (uuid env0))
       = (fileUploadStore0, Inr ''File deleted successfully'')
   \<and> \<not> FileUploadStore_exists fileUploadStore0 (uuid env0)
   \<and> fileUploadGet fileUploadStore0 (ParseSuccess (uuid env0))
       = Inl (ServiceError NOT_FOUND 404 NoDetails)"
proof -
  note U = responses_and_raw_bytes [where fs = fileUploadStore0 and req = "request_of [png_1x1]"
      and ev = env0 and fs' = t_one_png and resp = png_response, THEN conjunct1, rule_format,
      OF png_upload_run]
  have up: "\<exists>e. FileUploadStore_getById t_one_png (uuid env0) = Some e \<and> buffer e = png_1x1
         \<and> png_response = rest_without [''buffer''] (FileUploadEntity_object e)"
    using U png_1x1_ingested by auto
  have ex: "FileUploadStore_exists t_one_png (uuid env0)"
    using U by blast
  have nokey: "''buffer'' \<notin> fst ` set png_response"
    using U by blast
  have noval: "\<forall>k b. (k, JBuffer b) \<notin> set png_response"
    using U by blast
  note P = responses_and_raw_bytes [where ps = pdfUploadStore0 and req = "request_of [pdf_min]"
      and ev = env0 and ps' = t_one_clean and presp = pdf_response, THEN conjunct2,
      THEN conjunct2, THEN conjunct1, rule_format, OF pdf_upload_run]
  have iso: "Map_get (isolatedRecords t_one_clean) (uuid env0) = None"
    by (simp add: t_one_clean_def one_clean_eq Map_get_def)
  have pup: "\<exists>e. Map_get (records t_one_clean) (uuid env0) = Some e \<and> buffer e = pdf_min
         \<and> pdf_response = rest_without [''buffer'', ''status''] (PDFUploadEntity_object e)"
    using P pdf_min_ingested iso by auto
  have pex: "PDFUploadStore_exists t_one_clean (uuid env0)"
    using P by blast
  have pnokey: "''buffer'' \<notin> fst ` set pdf_response"
    using P by blast
  have pnoval: "\<forall>k b. (k, JBuffer b) \<notin> set pdf_response"
    using P by blast
  note C = responses_and_raw_bytes [where fs = t_one_png and i = "uuid env0"
      and fs' = fileUploadStore0 and m = "''File deleted successfully''"]
  have gone: "\<not> FileUploadStore_exists fileUploadStore0 (uuid env0)"
    using C png_cancel_run by blast
  have nf: "fileUploadGet fileUploadStore0 (ParseSuccess (uuid env0))
       = Inl (ServiceError NOT_FOUND 404 NoDetails)"
    by (simp add: fileUploadGet_def fileUploadStore0_def FileUploadStore_getById_def Map_get_def)
  show ?thesis
    using png_upload_run up ex nokey noval png_get_run pdf_upload_run pup pex pnokey pnoval
      pdf_get_run png_cancel_run gone nf
    by (intro conjI)
qed

text \<open>
  The property \<open>previewUrl\<close> of an image record is computed once, at the upload, as the
  data URL of the bytes; it is a property of its own and stays in the responses.
\<close>

lemma png_response_previewUrl:
  "map_of png_response ''previewUrl''
     = Some (JString (''data:image/png;base64,'' @ toString_base64 png_1x1))"
  unfolding png_response_def newFileUploadEntity_response by simp

end
